theory Spec2Isabelle
  imports Complex_Main
begin

section \<open>Word-level language model harness: batching, windows, training control\<close>

text \<open>
  A shallow embedding of \<^verbatim>\<open>main.py\<close>. Python integers are \<open>int\<close>, Python floats are
  modelled by \<open>real\<close> (the claims concern control flow and exact sums; rounding is not
  modelled), a raised exception is the left injection of a sum type. The neural network
  is external and enters as a parameter.
\<close>

subsection \<open>Errors and Python primitives\<close>

datatype error =
    ZeroDivisionError
  | RuntimeError
  | ValueError
  | IndexError
  | NameError
  | AssertionError string

text \<open>Sequencing of fallible steps: the first raised exception ends the computation.\<close>

definition bindE :: "error + 'a \<Rightarrow> ('a \<Rightarrow> error + 'b) \<Rightarrow> error + 'b" where
  "bindE m f = (case m of Inl e \<Rightarrow> Inl e | Inr x \<Rightarrow> f x)"

text \<open>Python's \<^verbatim>\<open>a // b\<close> on integers: floor division, raising on a zero divisor.\<close>

definition py_floordiv :: "int \<Rightarrow> int \<Rightarrow> error + int" where
  "py_floordiv a b = (if b = 0 then Inl ZeroDivisionError else Inr (a div b))"

text \<open>Python's \<^verbatim>\<open>x / y\<close> on floats raises on a zero divisor.\<close>

definition py_truediv :: "real \<Rightarrow> real \<Rightarrow> error + real" where
  "py_truediv x y = (if y = 0 then Inl ZeroDivisionError else Inr (x / y))"

text \<open>
  A slice \<^verbatim>\<open>xs[a:b]\<close> with unit step: a negative bound counts from the end, then both
  bounds are clamped to the length. A slice never raises.
\<close>

definition slice_bound :: "int \<Rightarrow> int \<Rightarrow> nat" where
  "slice_bound n a = nat (max 0 (min n (if a < 0 then a + n else a)))"

definition py_slice :: "'a list \<Rightarrow> int \<Rightarrow> int \<Rightarrow> 'a list" where
  "py_slice xs a b =
     (let n = int (length xs); lo = slice_bound n a; hi = slice_bound n b
      in take (hi - lo) (drop lo xs))"

text \<open>
  \<^verbatim>\<open>range(a, b, s)\<close>: a zero step raises; otherwise the elements are \<open>a + k * s\<close> for
  \<open>k\<close> below the length that CPython computes for the range object.
\<close>

definition range_len :: "int \<Rightarrow> int \<Rightarrow> int \<Rightarrow> nat" where
  "range_len a b s =
     (if 0 < s then nat ((b - a + s - 1) div s) else nat ((a - b - s - 1) div (- s)))"

definition py_range :: "int \<Rightarrow> int \<Rightarrow> int \<Rightarrow> error + int list" where
  "py_range a b s =
     (if s = 0 then Inl ValueError
      else Inr (map (\<lambda>k. a + int k * s) [0 ..< range_len a b s]))"

subsection \<open>Tensors\<close>

text \<open>
  A one-dimensional tensor is a list. A two-dimensional tensor is the list of its rows
  (dimension 0) together with its column count (dimension 1), which is kept explicitly since
  a tensor may have zero rows. \<^verbatim>\<open>len(t)\<close> and \<^verbatim>\<open>t.size(0)\<close> are the number of rows.
\<close>

record 'a tensor2 =
  ncols :: nat
  rows :: "'a list list"

definition size0 :: "'a tensor2 \<Rightarrow> int" where
  "size0 t = int (length (rows t))"

definition wf_tensor :: "'a tensor2 \<Rightarrow> bool" where
  "wf_tensor t = list_all (\<lambda>r. length r = ncols t) (rows t)"

text \<open>\<^verbatim>\<open>x.narrow(0, start, length)\<close> on a one-dimensional tensor; the range is checked.\<close>

definition narrow :: "'a list \<Rightarrow> int \<Rightarrow> int \<Rightarrow> error + 'a list" where
  "narrow xs start len =
     (if 0 \<le> start \<and> 0 \<le> len \<and> start + len \<le> int (length xs)
      then Inr (take (nat len) (drop (nat start) xs))
      else Inl RuntimeError)"

text \<open>
  \<^verbatim>\<open>x.view(bsz, -1)\<close> on a contiguous one-dimensional tensor: \<open>bsz\<close> rows, the row
  length inferred. The fixed dimension must be positive and divide the number of elements
  (an empty tensor gives \<open>bsz\<close> empty rows).
\<close>

definition view_rows :: "'a list \<Rightarrow> int \<Rightarrow> error + 'a tensor2" where
  "view_rows xs bsz =
     (if 0 < bsz \<and> int (length xs) mod bsz = 0
      then (let w = length xs div nat bsz
            in Inr \<lparr>ncols = w, rows = map (\<lambda>c. take w (drop (c * w) xs)) [0 ..< nat bsz]\<rparr>)
      else Inl RuntimeError)"

text \<open>\<^verbatim>\<open>x.t()\<close>: transposition of a two-dimensional tensor.\<close>

definition tensor_t :: "'a tensor2 \<Rightarrow> 'a tensor2" where
  "tensor_t x = \<lparr>ncols = length (rows x), rows = map (\<lambda>j. map (\<lambda>r. r ! j) (rows x)) [0 ..< ncols x]\<rparr>"

text \<open>\<^verbatim>\<open>x.view(-1)\<close> on a contiguous two-dimensional tensor: the rows one after another.\<close>

definition flatten :: "'a tensor2 \<Rightarrow> 'a list" where
  "flatten x = concat (rows x)"

text \<open>\<^verbatim>\<open>x[a:b]\<close> on a two-dimensional tensor slices dimension 0.\<close>

definition slice_rows :: "'a tensor2 \<Rightarrow> int \<Rightarrow> int \<Rightarrow> 'a tensor2" where
  "slice_rows x a b = \<lparr>ncols = ncols x, rows = py_slice (rows x) a b\<rparr>"

text \<open>\<^verbatim>\<open>torch.cat((x, y), dim=0)\<close>: the column counts must agree.\<close>

definition cat0 :: "'a tensor2 \<Rightarrow> 'a tensor2 \<Rightarrow> error + 'a tensor2" where
  "cat0 x y =
     (if ncols x = ncols y then Inr \<lparr>ncols = ncols x, rows = rows x @ rows y\<rparr>
      else Inl RuntimeError)"

text \<open>Column \<open>c\<close> of a tensor, read top to bottom.\<close>

definition column :: "'a tensor2 \<Rightarrow> nat \<Rightarrow> 'a list" where
  "column x c = map (\<lambda>r. r ! c) (rows x)"

subsection \<open>The batcher\<close>

text \<open>
  \<^verbatim>\<open>
  def batchify(data, bsz):
      nbatch = data.size(0) // bsz
      data = data.narrow(0, 0, nbatch * bsz)
      data = data.view(bsz, -1).t().contiguous()
      return data.to(device)
  \<close>
\<close>

definition batchify :: "'a list \<Rightarrow> int \<Rightarrow> error + 'a tensor2" where
  "batchify data bsz =
     bindE (py_floordiv (int (length data)) bsz) (\<lambda>nbatch.
     bindE (narrow data 0 (nbatch * bsz)) (\<lambda>data1.
     bindE (view_rows data1 bsz) (\<lambda>data2.
     Inr (tensor_t data2))))"

subsection \<open>Configuration\<close>

text \<open>
  The command-line arguments that the modelled code reads. \<open>args_lr\<close> is
  \<^verbatim>\<open>args.lr\<close> (the running rate \<^verbatim>\<open>lr\<close> is part of the controller state).
  All integer options are parsed with \<^verbatim>\<open>type=int\<close> and may be any integer.
\<close>

record args =
  model :: string
  norder :: int
  pad_vocab :: bool
  optim :: string
  args_lr :: real
  lr_decay_rate :: real
  weight_decay :: real
  eval_batch_size :: int
  bptt :: int
  patience :: int

definition startswith :: "string \<Rightarrow> string \<Rightarrow> bool" where
  "startswith s p = (take (length p) s = p)"

text \<open>The defaults that the argument parser declares for these options.\<close>

definition default_args :: args where
  "default_args =
     \<lparr>model = ''FeedForward'', norder = 4, pad_vocab = False, optim = ''adamw'',
      args_lr = 1 / 1000, lr_decay_rate = 4, weight_decay = 1 / 100, eval_batch_size = 128,
      bptt = 64, patience = 8\<rparr>"

text \<open>
  \<^verbatim>\<open>ntokens = len(corpus.dictionary) + args.norder if args.pad_vocab else len(corpus.dictionary)\<close>
\<close>

definition ntokens_of :: "args \<Rightarrow> int \<Rightarrow> int" where
  "ntokens_of a dict_len = (if pad_vocab a then dict_len + norder a else dict_len)"

subsection \<open>The window extractor\<close>

text \<open>
  The synthetic context of the pad-start mode, with \<open>cols\<close> columns.
  With vocabulary padding: \<^verbatim>\<open>range(ntokens - norder, ntokens)\<close> as a column, expanded to
  \<open>norder\<close> by \<open>cols\<close> (an expansion size of \<open>-1\<close> keeps the dimension, any other size
  must match it). Without: \<^verbatim>\<open>torch.ones(norder, cols) * pad_id\<close>, whose creation fails
  for a negative dimension.
\<close>

definition padding_of :: "args \<Rightarrow> int \<Rightarrow> int \<Rightarrow> nat \<Rightarrow> error + int tensor2" where
  "padding_of a pad_id ntokens cols =
     (if pad_vocab a then
        (let prefix = [ntokens - norder a .. ntokens - 1]
         in if norder a = - 1 \<or> norder a = int (length prefix)
            then Inr \<lparr>ncols = cols, rows = map (\<lambda>v. replicate cols v) prefix\<rparr>
            else Inl RuntimeError)
      else if norder a < 0 then Inl RuntimeError
      else Inr \<lparr>ncols = cols, rows = replicate (nat (norder a)) (replicate cols pad_id)\<rparr>)"

text \<open>
  \<^verbatim>\<open>
  def get_batch(source, i, ntokens, pad_start=False):
      if pad_start:
          seq_len = min(args.bptt, len(source) - i)
          data = source[i:i+seq_len-1]
          if args.pad_vocab: ... padding = prefix.unsqueeze(1).expand(args.norder, source.size()[1])
          else: padding = torch.ones(args.norder, source.size()[1], dtype=torch.long)*pad_id
          data = torch.cat((padding, data), dim=0)
          target = source[i:i+seq_len].view(-1)
      else:
          seq_len = min(args.bptt, len(source) - 1 - i)
          data = source[i:i+seq_len]
          target = source[i+1:i+1+seq_len].view(-1)
      return data, target
  \<close>
\<close>

definition get_batch ::
  "args \<Rightarrow> int \<Rightarrow> int tensor2 \<Rightarrow> int \<Rightarrow> int \<Rightarrow> bool \<Rightarrow> error + (int tensor2 \<times> int list)" where
  "get_batch a pad_id source i ntokens pad_start =
     (if pad_start then
        (let seq_len = min (bptt a) (size0 source - i);
             data = slice_rows source i (i + seq_len - 1)
         in bindE (padding_of a pad_id ntokens (ncols source)) (\<lambda>padding.
            bindE (cat0 padding data) (\<lambda>data'.
            Inr (data', flatten (slice_rows source i (i + seq_len))))))
      else
        (let seq_len = min (bptt a) (size0 source - 1 - i)
         in Inr (slice_rows source i (i + seq_len),
                 flatten (slice_rows source (i + 1) (i + 1 + seq_len)))))"

subsection \<open>Evaluation\<close>

text \<open>
  The network is external. \<open>forward\<close> is \<^verbatim>\<open>model(data)\<close> and \<open>forward_hidden\<close> is
  \<^verbatim>\<open>model(data, hidden)\<close>; the output is the matrix of log-probabilities, one row of
  \<open>ntokens\<close> entries per predicted position. \<open>init_hidden\<close> is \<^verbatim>\<open>model.init_hidden\<close>.
\<close>

record 'h net =
  forward :: "int tensor2 \<Rightarrow> real list list"
  forward_hidden :: "int tensor2 \<Rightarrow> 'h \<Rightarrow> real list list \<times> 'h"
  init_hidden :: "int \<Rightarrow> 'h"

text \<open>Detaching the hidden state from its history does not change its value.\<close>

definition repackage_hidden :: "'h \<Rightarrow> 'h" where
  "repackage_hidden h = h"

text \<open>
  \<^verbatim>\<open>nn.NLLLoss()\<close> with its default mean reduction: the mean over the positions of the
  negated log-probability of the target. The number of output rows must be the number of
  targets and every target must index its row. Over no target at all the mean is NaN,
  represented by \<open>NotANumber\<close>: every later step of \<open>evaluate\<close> propagates it to the
  returned value.
\<close>

datatype loss_error = Raised error | NotANumber

definition criterion :: "real list list \<Rightarrow> int list \<Rightarrow> loss_error + real" where
  "criterion output targets =
     (if length output \<noteq> length targets then Inl (Raised ValueError)
      else if \<not> list_all2 (\<lambda>row k. 0 \<le> k \<and> k < int (length row)) output targets
        then Inl (Raised IndexError)
      else if targets = [] then Inl NotANumber
      else Inr (sum_list (map2 (\<lambda>row k. - (row ! nat k)) output targets)
                / real (length targets)))"

definition bindL :: "loss_error + 'a \<Rightarrow> ('a \<Rightarrow> loss_error + 'b) \<Rightarrow> loss_error + 'b" where
  "bindL m f = (case m of Inl e \<Rightarrow> Inl e | Inr x \<Rightarrow> f x)"

definition raised :: "error + 'a \<Rightarrow> loss_error + 'a" where
  "raised m = (case m of Inl e \<Rightarrow> Inl (Raised e) | Inr x \<Rightarrow> Inr x)"

definition stateless :: "args \<Rightarrow> bool" where
  "stateless a = (model a = ''Transformer'' \<or> startswith (model a) ''FeedForward'')"

text \<open>
  One iteration of the loop of \<open>evaluate\<close>, on the accumulated loss and the hidden state
  (absent for the stateless models):
  \<^verbatim>\<open>
  data, targets = get_batch(data_source, i, ntokens, args.model.startswith('FeedForward'))
  if args.model == 'Transformer' or args.model.startswith('FeedForward'):
      output = model(data); output = output.view(-1, ntokens)
  else:
      output, hidden = model(data, hidden); hidden = repackage_hidden(hidden)
  total_loss += len(data) * criterion(output, targets).item()
  \<close>
\<close>

definition evaluate_window ::
  "args \<Rightarrow> int \<Rightarrow> int \<Rightarrow> 'h net \<Rightarrow> int tensor2 \<Rightarrow> int \<Rightarrow> real \<times> 'h option
     \<Rightarrow> loss_error + (real \<times> 'h option)" where
  "evaluate_window a pad_id ntokens nt data_source i acc =
     bindL (raised (get_batch a pad_id data_source i ntokens (startswith (model a) ''FeedForward'')))
       (\<lambda>(data, targets).
          if stateless a then
            bindL (criterion (forward nt data) targets) (\<lambda>l.
              Inr (fst acc + real_of_int (size0 data) * l, snd acc))
          else
            (case snd acc of
               None \<Rightarrow> Inl (Raised NameError)
             | Some hidden \<Rightarrow>
                 (let (output, hidden') = forward_hidden nt data hidden
                  in bindL (criterion output targets) (\<lambda>l.
                       Inr (fst acc + real_of_int (size0 data) * l,
                            Some (repackage_hidden hidden'))))))"

fun evaluate_loop ::
  "args \<Rightarrow> int \<Rightarrow> int \<Rightarrow> 'h net \<Rightarrow> int tensor2 \<Rightarrow> int list \<Rightarrow> real \<times> 'h option
     \<Rightarrow> loss_error + (real \<times> 'h option)" where
  "evaluate_loop a pad_id ntokens nt data_source [] acc = Inr acc"
| "evaluate_loop a pad_id ntokens nt data_source (i # starts) acc =
     bindL (evaluate_window a pad_id ntokens nt data_source i acc)
       (evaluate_loop a pad_id ntokens nt data_source starts)"

text \<open>
  \<^verbatim>\<open>
  def evaluate(data_source):
      total_loss = 0.
      ntokens = ...
      if not (args.model == 'Transformer' or args.model.startswith('FeedForward')):
          hidden = model.init_hidden(args.eval_batch_size)
      for i in range(0, data_source.size(0) - 1, args.bptt): ...
      return total_loss / (len(data_source) - 1)
  \<close>
  \<open>dict_len\<close> is \<^verbatim>\<open>len(corpus.dictionary)\<close>.
\<close>

definition evaluate ::
  "args \<Rightarrow> int \<Rightarrow> int \<Rightarrow> 'h net \<Rightarrow> int tensor2 \<Rightarrow> loss_error + real" where
  "evaluate a pad_id dict_len nt data_source =
     (let ntokens = ntokens_of a dict_len;
          hidden = (if stateless a then None else Some (init_hidden nt (eval_batch_size a)))
      in bindL (raised (py_range 0 (size0 data_source - 1) (bptt a))) (\<lambda>starts.
         bindL (evaluate_loop a pad_id ntokens nt data_source starts (0, hidden)) (\<lambda>acc.
         raised (py_truediv (fst acc) (real_of_int (size0 data_source - 1))))))"

subsection \<open>The training controller\<close>

text \<open>
  The optimizer object holds the rate and weight decay of its parameter group. The
  controller state is the module-level variables \<^verbatim>\<open>lr\<close>, \<^verbatim>\<open>optimizer\<close>,
  \<^verbatim>\<open>best_val_loss\<close> and \<^verbatim>\<open>patience_count\<close>, together with what the loop writes:
  \<open>written\<close> lists the models saved to \<^verbatim>\<open>args.save\<close>, oldest first (the file holds the
  last one), and \<open>decay_log\<close> the rates reported by \<^verbatim>\<open>print("Decay LR to ...")\<close>.
\<close>

record optimizer =
  opt_lr :: real
  opt_weight_decay :: real

record 'm controller =
  lr :: real
  optimizer :: "optimizer option"
  best_val_loss :: "real option"
  patience_count :: int
  written :: "'m list"
  decay_log :: "real list"

text \<open>
  \<^verbatim>\<open>
  if args.optim == 'adamw':
      optimizer = torch.optim.AdamW(model.parameters(), lr=lr, weight_decay=args.weight_decay)
  else:
      assert args.optim == 'sgd', 'Specified optimizer not supported'
  \<close>
\<close>

definition setup_optimizer :: "args \<Rightarrow> error + optimizer option" where
  "setup_optimizer a =
     (if optim a = ''adamw''
      then Inr (Some \<lparr>opt_lr = args_lr a, opt_weight_decay = weight_decay a\<rparr>)
      else if optim a = ''sgd'' then Inr None
      else Inl (AssertionError ''Specified optimizer not supported''))"

definition init_controller :: "args \<Rightarrow> error + 'm controller" where
  "init_controller a =
     bindE (setup_optimizer a) (\<lambda>opt.
       Inr \<lparr>lr = args_lr a, optimizer = opt, best_val_loss = None, patience_count = 0,
            written = [], decay_log = []\<rparr>)"

text \<open>
  The update at the end of a training step; the step of the AdamW optimizer is external.
  \<^verbatim>\<open>
  if args.optim == 'sgd':
      for p in model.parameters(): p.data.add_(p.grad, alpha=-lr)
  else:
      optimizer.step()
  \<close>
\<close>

definition sgd_update :: "real \<Rightarrow> real list \<Rightarrow> real list \<Rightarrow> real list" where
  "sgd_update rate params grads = map2 (\<lambda>p g. p + (- rate) * g) params grads"

definition apply_update ::
  "args \<Rightarrow> (optimizer \<Rightarrow> real list \<Rightarrow> real list \<Rightarrow> real list) \<Rightarrow> 'm controller
     \<Rightarrow> real list \<Rightarrow> real list \<Rightarrow> error + real list" where
  "apply_update a adamw_step s params grads =
     (if optim a = ''sgd'' then Inr (sgd_update (lr s) params grads)
      else (case optimizer s of
              None \<Rightarrow> Inl NameError
            | Some opt \<Rightarrow> Inr (adamw_step opt params grads)))"

text \<open>Truth value of a Python float: zero is false.\<close>

definition float_truthy :: "real \<Rightarrow> bool" where
  "float_truthy x = (x \<noteq> 0)"

text \<open>\<^verbatim>\<open>not best_val_loss\<close>: true for \<^verbatim>\<open>None\<close> and for a float that is zero.\<close>

definition not_best :: "real option \<Rightarrow> bool" where
  "not_best b = (case b of None \<Rightarrow> True | Some x \<Rightarrow> \<not> float_truthy x)"

text \<open>
  \<^verbatim>\<open>
  if args.optim != 'sgd':
      for param_group in optimizer.param_groups: param_group['lr'] = lr
  \<close>
\<close>

definition propagate_lr :: "args \<Rightarrow> 'm controller \<Rightarrow> error + 'm controller" where
  "propagate_lr a s =
     (if optim a \<noteq> ''sgd'' then
        (case optimizer s of
           None \<Rightarrow> Inl NameError
         | Some opt \<Rightarrow> Inr (s\<lparr>optimizer := Some (opt\<lparr>opt_lr := lr s\<rparr>)\<rparr>))
      else Inr s)"

text \<open>
  What the loop does with one validation loss, \<open>m\<close> being the model at that point:
  \<^verbatim>\<open>
  if not best_val_loss or val_loss < best_val_loss:
      with open(args.save, 'wb') as f: torch.save(model, f)
      best_val_loss = val_loss
      patience_count = 0
  else:
      if patience_count == args.patience:
          lr /= args.lr_decay_rate
          print("Decay LR to %.6f" % lr)
          patience_count = 0
      else:
          patience_count += 1
  \<close>
  followed by the propagation of the rate to the optimizer.
\<close>

definition improved :: "real option \<Rightarrow> real \<Rightarrow> bool" where
  "improved best val_loss =
     (not_best best \<or> (case best of None \<Rightarrow> False | Some b \<Rightarrow> val_loss < b))"

definition after_evaluation ::
  "args \<Rightarrow> 'm \<Rightarrow> real \<Rightarrow> 'm controller \<Rightarrow> error + 'm controller" where
  "after_evaluation a m val_loss s =
     bindE
       (if improved (best_val_loss s) val_loss then
          Inr (s\<lparr>written := written s @ [m], best_val_loss := Some val_loss,
                 patience_count := 0\<rparr>)
        else if patience_count s = patience a then
          bindE (py_truediv (lr s) (lr_decay_rate a)) (\<lambda>lr'.
            Inr (s\<lparr>lr := lr', decay_log := decay_log s @ [lr'], patience_count := 0\<rparr>))
        else Inr (s\<lparr>patience_count := patience_count s + 1\<rparr>))
       (propagate_lr a)"

text \<open>
  The epoch loops call \<^verbatim>\<open>train\<close> and \<^verbatim>\<open>evaluate\<close> and then apply the rule above. The
  controller sees of them the model and the validation loss of each evaluation, in order.
\<close>

fun run_evaluations ::
  "args \<Rightarrow> ('m \<times> real) list \<Rightarrow> 'm controller \<Rightarrow> error + 'm controller" where
  "run_evaluations a [] s = Inr s"
| "run_evaluations a ((m, val_loss) # obs) s =
     bindE (after_evaluation a m val_loss s) (run_evaluations a obs)"

text \<open>The optimizer is set up, and the assertion checked, before the first epoch.\<close>

definition training :: "args \<Rightarrow> ('m \<times> real) list \<Rightarrow> error + 'm controller" where
  "training a obs = bindE (init_controller a) (run_evaluations a obs)"

section \<open>Properties\<close>

subsection \<open>The batcher\<close>

lemma concat_chunks:
  "concat (map (\<lambda>c. take w (drop (c * w) ys)) [0 ..< b]) = take (b * w) ys"
proof (induction b)
  case 0
  then show ?case by simp
next
  case (Suc b)
  have "Suc b * w = b * w + w" by simp
  then have "take (Suc b * w) ys = take (b * w) ys @ take w (drop (b * w) ys)"
    by (simp only: take_add)
  with Suc show ?case by simp
qed

lemma view_rows_ok:
  assumes "0 < B" and "length ys = R * B"
  shows "view_rows ys (int B) =
           Inr \<lparr>ncols = R, rows = map (\<lambda>c. take R (drop (c * R) ys)) [0 ..< B]\<rparr>"
  using assms by (simp add: view_rows_def zmod_int)

lemma batchify_eq:
  assumes "0 < B"
  shows "batchify xs (int B) =
     Inr (tensor_t \<lparr>ncols = length xs div B,
             rows = map (\<lambda>c. take (length xs div B) (drop (c * (length xs div B)) (take (length xs div B * B) xs))) [0 ..< B]\<rparr>)"
proof -
  let ?R = "length xs div B"
  have le: "?R * B \<le> length xs" by simp
  have n: "narrow xs 0 (int (length xs) div int B * int B) = Inr (take (?R * B) xs)"
    using le by (simp add: narrow_def zdiv_int[symmetric] nat_mult_distrib flip: of_nat_mult)
  have len: "length (take (?R * B) xs) = ?R * B" using le by simp
  show ?thesis
    using assms n view_rows_ok[OF assms len]
    by (simp add: batchify_def bindE_def py_floordiv_def)
qed

lemma column_t:
  assumes "c < length (rows x)" and "length (rows x ! c) = ncols x"
  shows "column (tensor_t x) c = rows x ! c"
proof -
  have "map ((!) (rows x ! c)) [0 ..< ncols x] = rows x ! c"
    unfolding assms(2)[symmetric] by (rule map_nth)
  with assms(1) show ?thesis by (simp add: column_def tensor_t_def o_def)
qed

text \<open>
  Claim C3. For a stream of \<open>N\<close> tokens and a batch width \<open>B \<ge> 1\<close>, \<open>batchify\<close> returns
  a tensor with \<open>N div B\<close> rows and \<open>B\<close> columns; column \<open>c\<close> is the \<open>c\<close>-th contiguous
  chunk of length \<open>N div B\<close> of the stream, and the columns one after another are the stream
  without its last \<open>N mod B\<close> tokens.
\<close>

theorem batchify_shape:
  assumes "0 < B"
  shows "\<exists>T. batchify xs (int B) = Inr T
           \<and> length (rows T) = length xs div B
           \<and> ncols T = B
           \<and> wf_tensor T
           \<and> (\<forall>c < B. column T c = take (length xs div B) (drop (c * (length xs div B)) xs))
           \<and> concat (map (column T) [0 ..< B]) = take (length xs - length xs mod B) xs"
proof -
  let ?R = "length xs div B"
  let ?ys = "take (?R * B) xs"
  let ?V = "\<lparr>ncols = ?R, rows = map (\<lambda>c. take ?R (drop (c * ?R) ?ys)) [0 ..< B]\<rparr>"
  have le: "?R * B \<le> length xs" by simp
  have eq: "batchify xs (int B) = Inr (tensor_t ?V)" by (rule batchify_eq[OF assms])
  have chunk: "take ?R (drop (c * ?R) ?ys) = take ?R (drop (c * ?R) xs)" if "c < B" for c
  proof -
    have "c * ?R + ?R \<le> ?R * B"
      using that by (metis Suc_leI mult.commute mult_Suc mult_le_mono1 add.commute)
    then show ?thesis by (simp add: drop_take min_def)
  qed
  have col: "column (tensor_t ?V) c = take ?R (drop (c * ?R) xs)" if "c < B" for c
  proof -
    have "c * ?R + ?R \<le> ?R * B"
      using that by (metis Suc_leI mult.commute mult_Suc mult_le_mono1 add.commute)
    with le have "length (take ?R (drop (c * ?R) ?ys)) = ?R" by simp
    with that have "column (tensor_t ?V) c = rows ?V ! c"
      by (intro column_t) simp_all
    with that chunk show ?thesis by simp
  qed
  have cols: "map (column (tensor_t ?V)) [0 ..< B] = map (\<lambda>c. take ?R (drop (c * ?R) xs)) [0 ..< B]"
    using col by simp
  have used: "length xs - length xs mod B = B * ?R"
    by (simp add: minus_mod_eq_mult_div)
  have "concat (map (column (tensor_t ?V)) [0 ..< B]) = take (length xs - length xs mod B) xs"
    unfolding cols used by (rule concat_chunks)
  moreover have "length (rows (tensor_t ?V)) = ?R" by (simp add: tensor_t_def)
  moreover have "ncols (tensor_t ?V) = B" by (simp add: tensor_t_def)
  moreover have "wf_tensor (tensor_t ?V)" by (simp add: wf_tensor_def tensor_t_def list_all_iff)
  ultimately show ?thesis using eq col by blast
qed

text \<open>
  The scenario of the claim: the stream \<open>0, \<dots>, 25\<close> with \<open>B = 4\<close> gives 6 rows by 4
  columns, the columns being the four chunks of \<open>0, \<dots>, 23\<close>; the tokens 24 and 25 are
  dropped.
\<close>

theorem batchify_shape_witness:
  "(0::nat) < 4
   \<and> batchify [0 .. 25] 4 =
        Inr \<lparr>ncols = 4,
             rows = [[0, 6, 12, 18], [1, 7, 13, 19], [2, 8, 14, 20],
                     [3, 9, 15, 21], [4, 10, 16, 22], [5, 11, 17, 23]]\<rparr>
   \<and> (\<exists>T. batchify [0 .. 25] (int 4) = Inr T \<and> length (rows T) = 6 \<and> ncols T = 4
          \<and> concat (map (column T) [0 ..< 4]) = [0 .. 23])"
proof -
  have u: "[0 .. 25] = [0,1,2,3,4,5,6,7,8,9,10,11,12,13,14,15,16,17,18,19,20,21,22,23,24,25::int]"
    by (simp add: upto.simps)
  have v: "[0 .. 23] = [0,1,2,3,4,5,6,7,8,9,10,11,12,13,14,15,16,17,18,19,20,21,22,23::int]"
    by (simp add: upto.simps)
  have e: "batchify [0 .. 25] 4 =
        Inr \<lparr>ncols = 4,
             rows = [[0, 6, 12, 18], [1, 7, 13, 19], [2, 8, 14, 20],
                     [3, 9, 15, 21], [4, 10, 16, 22], [5, 11, 17, 23]]\<rparr>"
    unfolding u by code_simp
  have h: "(0::nat) < 4" by simp
  from batchify_shape[OF h, of "[0 .. 25]"] obtain T where
    T: "batchify [0 .. 25] (int 4) = Inr T" "length (rows T) = length [0 .. 25::int] div 4" "ncols T = 4"
       "concat (map (column T) [0 ..< 4]) = take (length [0 .. 25::int] - length [0 .. 25::int] mod 4) [0 .. 25]"
    by blast
  have l: "length [0 .. 25::int] = 26" by simp
  have "take 24 [0 .. 25::int] = [0 .. 23]" unfolding u v by simp
  with T l have "length (rows T) = 6" "concat (map (column T) [0 ..< 4]) = [0 .. 23]" by simp_all
  with T(1,3) e h show ?thesis by blast
qed

subsection \<open>Slices, ranges and flattened rows\<close>

lemma py_slice_in_range:
  assumes "0 \<le> a" and "a \<le> b" and "b \<le> int (length xs)"
  shows "py_slice xs a b = take (nat b - nat a) (drop (nat a) xs)"
  using assms by (simp add: py_slice_def slice_bound_def Let_def min_def max_def)

text \<open>
  The driver loops are \<^verbatim>\<open>for i in range(lo, hi, args.bptt)\<close> with \<open>hi\<close> at most the number
  of rows minus one. A start below \<open>hi\<close> is produced only by a positive step, so a window
  is extracted at a valid start only when \<open>bptt\<close> is positive.
\<close>

lemma range_start_positive_step:
  assumes "py_range lo hi s = Inr starts" and "i \<in> set starts" and "i < hi"
  shows "0 < s"
proof (rule ccontr)
  assume "\<not> 0 < s"
  with assms(1) have neg: "s < 0" by (auto simp: py_range_def split: if_splits)
  from assms(1,2) neg obtain k where
    k: "i = lo + int k * s" "k < nat ((lo - hi - s - 1) div (- s))"
    by (auto simp: py_range_def range_len_def split: if_splits)
  define d where "d = - s"
  have d: "0 < d" using neg by (simp add: d_def)
  have "int k + 1 \<le> (lo - hi + d - 1) div d" using k(2) by (simp add: d_def)
  then have "(int k + 1) * d \<le> ((lo - hi + d - 1) div d) * d"
    using d by (simp add: mult_right_mono)
  also have "\<dots> \<le> lo - hi + d - 1"
    using d by (metis mult.commute pos_mod_sign add_le_cancel_left
        mult_div_mod_eq add.right_neutral)
  finally have "int k * d < lo - hi" by (simp add: algebra_simps)
  then have "hi < i" using k(1) by (simp add: d_def)
  with assms(3) show False by simp
qed

lemma length_concat_uniform:
  assumes "\<forall>r \<in> set xss. length r = B"
  shows "length (concat xss) = length xss * B"
  using assms by (induction xss) simp_all

lemma concat_uniform_nth:
  assumes "\<forall>r \<in> set xss. length r = B" and "k < length xss" and "c < B"
  shows "concat xss ! (k * B + c) = xss ! k ! c"
  using assms
proof (induction xss arbitrary: k)
  case Nil
  then show ?case by simp
next
  case (Cons x xss)
  show ?case
  proof (cases k)
    case 0
    with Cons.prems show ?thesis by (simp add: nth_append)
  next
    case (Suc j)
    have "Suc j * B + c = length x + (j * B + c)" using Cons.prems(1) by simp
    then have "concat (x # xss) ! (Suc j * B + c) = concat xss ! (j * B + c)"
      by (simp add: nth_append)
    also have "\<dots> = xss ! j ! c"
      using Cons.prems Suc by (intro Cons.IH) simp_all
    finally show ?thesis using Suc by simp
  qed
qed

lemma wf_take_drop:
  assumes "wf_tensor source"
  shows "\<forall>r \<in> set (take n (drop m (rows source))). length r = ncols source"
  using assms by (auto simp: wf_tensor_def list_all_iff dest!: in_set_takeD in_set_dropD)

subsection \<open>The window extractor\<close>

lemmas ev = get_batch_def default_args_def size0_def slice_rows_def py_slice_def slice_bound_def
  flatten_def padding_of_def cat0_def bindE_def Let_def wf_tensor_def ntokens_of_def

lemma sequential_window:
  assumes "0 \<le> i" and "i < size0 source - 1" and "0 \<le> bptt a"
    and "L = nat (min (bptt a) (size0 source - 1 - i))"
  shows "get_batch a pad_id source i ntokens False
           = Inr (\<lparr>ncols = ncols source, rows = take L (drop (nat i) (rows source))\<rparr>,
                  concat (take L (drop (nat i + 1) (rows source))))"
    and "nat i + L < length (rows source)"
    and "int L \<le> bptt a"
proof -
  define R where "R = length (rows source)"
  have R: "size0 source = int R" by (simp add: size0_def R_def)
  have Lint: "int L = min (bptt a) (int R - 1 - i)"
    using assms by (simp add: R)
  show bound: "nat i + L < length (rows source)" using assms(1,2) Lint R unfolding R_def by linarith
  have d: "py_slice (rows source) i (i + int L) = take L (drop (nat i) (rows source))"
  proof -
    have "py_slice (rows source) i (i + int L) = take (nat (i + int L) - nat i) (drop (nat i) (rows source))"
      using assms(1) bound by (intro py_slice_in_range) simp_all
    moreover have "nat (i + int L) - nat i = L" using assms(1) by simp
    ultimately show ?thesis by simp
  qed
  have tg: "py_slice (rows source) (i + 1) (i + 1 + int L) = take L (drop (nat i + 1) (rows source))"
  proof -
    have "py_slice (rows source) (i + 1) (i + 1 + int L)
            = take (nat (i + 1 + int L) - nat (i + 1)) (drop (nat (i + 1)) (rows source))"
      using assms(1) bound by (intro py_slice_in_range) simp_all
    moreover have "nat (i + 1 + int L) - nat (i + 1) = L" using assms(1) by simp
    moreover have "nat (i + 1) = nat i + 1" using assms(1) by simp
    ultimately show ?thesis by simp
  qed
  show "get_batch a pad_id source i ntokens False
              = Inr (\<lparr>ncols = ncols source, rows = take L (drop (nat i) (rows source))\<rparr>,
                     concat (take L (drop (nat i + 1) (rows source))))"
    using d tg Lint by (simp add: get_batch_def Let_def slice_rows_def flatten_def R)
  show "int L \<le> bptt a" using Lint by simp
qed

lemma padding_of_ok:
  assumes "0 \<le> norder a"
  shows "padding_of a pad_id ntokens cols =
     Inr \<lparr>ncols = cols,
          rows = (if pad_vocab a
                  then map (\<lambda>k. replicate cols (ntokens - norder a + int k)) [0 ..< nat (norder a)]
                  else replicate (nat (norder a)) (replicate cols pad_id))\<rparr>"
proof (cases "pad_vocab a")
  case False
  with assms show ?thesis by (simp add: padding_of_def)
next
  case True
  have len: "int (length [ntokens - norder a .. ntokens - 1]) = norder a"
    using assms by simp
  have "[ntokens - norder a .. ntokens - 1] = map (\<lambda>k. ntokens - norder a + int k) [0 ..< nat (norder a)]"
  proof (rule nth_equalityI)
    show "length [ntokens - norder a .. ntokens - 1]
            = length (map (\<lambda>k. ntokens - norder a + int k) [0 ..< nat (norder a)])"
      using assms by simp
  next
    fix k assume "k < length [ntokens - norder a .. ntokens - 1]"
    then have k: "k < nat (norder a)" using assms by simp
    then show "[ntokens - norder a .. ntokens - 1] ! k
            = map (\<lambda>k. ntokens - norder a + int k) [0 ..< nat (norder a)] ! k"
      by simp
  qed
  then have "map (\<lambda>v. replicate cols v) [ntokens - norder a .. ntokens - 1]
             = map (\<lambda>k. replicate cols (ntokens - norder a + int k)) [0 ..< nat (norder a)]"
    by (simp add: o_def)
  with True len show ?thesis by (simp add: padding_of_def Let_def)
qed

lemma padded_window:
  assumes "0 \<le> i" and "i < size0 source" and "1 \<le> bptt a" and "0 \<le> norder a"
    and "L = nat (min (bptt a) (size0 source - i))"
    and "pad = (if pad_vocab a
                then map (\<lambda>k. replicate (ncols source) (ntokens - norder a + int k))
                       [0 ..< nat (norder a)]
                else replicate (nat (norder a)) (replicate (ncols source) pad_id))"
  shows "get_batch a pad_id source i ntokens True
           = Inr (\<lparr>ncols = ncols source, rows = pad @ take (L - 1) (drop (nat i) (rows source))\<rparr>,
                  concat (take L (drop (nat i) (rows source))))"
    and "nat i + L \<le> length (rows source)"
    and "1 \<le> L" and "int L \<le> bptt a" and "length pad = nat (norder a)"
proof -
  define R where "R = length (rows source)"
  have R: "size0 source = int R" by (simp add: size0_def R_def)
  have Lint: "int L = min (bptt a) (int R - i)"
    using assms by (simp add: R)
  show L1: "1 \<le> L" using assms(1,2,3) Lint R by linarith
  show bound: "nat i + L \<le> length (rows source)"
    using assms(1,2) Lint R unfolding R_def by linarith
  have d: "py_slice (rows source) i (i + int L - 1) = take (L - 1) (drop (nat i) (rows source))"
  proof -
    have "py_slice (rows source) i (i + int L - 1)
            = take (nat (i + int L - 1) - nat i) (drop (nat i) (rows source))"
      using assms(1) bound L1 by (intro py_slice_in_range) simp_all
    moreover have "nat (i + int L - 1) - nat i = L - 1" using assms(1) L1 by linarith
    ultimately show ?thesis by simp
  qed
  have tg: "py_slice (rows source) i (i + int L) = take L (drop (nat i) (rows source))"
  proof -
    have "py_slice (rows source) i (i + int L)
            = take (nat (i + int L) - nat i) (drop (nat i) (rows source))"
      using assms(1) bound by (intro py_slice_in_range) simp_all
    moreover have "nat (i + int L) - nat i = L" using assms(1) by simp
    ultimately show ?thesis by simp
  qed
  have p: "padding_of a pad_id ntokens (ncols source) = Inr \<lparr>ncols = ncols source, rows = pad\<rparr>"
    unfolding assms(6) by (rule padding_of_ok[OF assms(4)])
  show "get_batch a pad_id source i ntokens True
              = Inr (\<lparr>ncols = ncols source, rows = pad @ take (L - 1) (drop (nat i) (rows source))\<rparr>,
                     concat (take L (drop (nat i) (rows source))))"
    using d tg p Lint
    by (simp add: get_batch_def Let_def slice_rows_def flatten_def R bindE_def cat0_def)
  show "length pad = nat (norder a)" by (simp add: assms(6))
  show "int L \<le> bptt a" using Lint by simp
qed

text \<open>
  Claim C4. For a tensor with \<open>R\<close> rows, a start \<open>0 \<le> i < R - 1\<close> and a window length
  \<open>bptt \<ge> 0\<close>, the sequential branch returns \<open>data = rows[i : i+L]\<close> and
  \<open>target = rows[i+1 : i+1+L]\<close> flattened, with \<open>L = min(bptt, R - 1 - i)\<close>. The window has
  \<open>L \<le> bptt\<close> rows, and the largest row index read, \<open>i + L\<close>, is below \<open>R\<close>.
\<close>

theorem get_batch_sequential:
  assumes "0 \<le> i" and "i < size0 source - 1" and "0 \<le> bptt a"
  shows "let L = nat (min (bptt a) (size0 source - 1 - i));
             tgt = take L (drop (nat i + 1) (rows source))
         in \<exists>data target.
              get_batch a pad_id source i ntokens False = Inr (data, target)
              \<and> rows data = take L (drop (nat i) (rows source))
              \<and> target = concat tgt
              \<and> ncols data = ncols source
              \<and> length (rows data) = L \<and> length tgt = L
              \<and> int L \<le> bptt a
              \<and> nat i + L < length (rows source)
              \<and> (\<forall>k < L. rows data ! k = rows source ! (nat i + k)
                          \<and> tgt ! k = rows source ! (nat i + 1 + k))"
proof -
  define L where "L = nat (min (bptt a) (size0 source - 1 - i))"
  note w = sequential_window[OF assms L_def]
  have len1: "length (take L (drop (nat i) (rows source))) = L"
    using w(2) by simp
  have len2: "length (take L (drop (nat i + 1) (rows source))) = L"
    using w(2) by simp
  have nth: "take L (drop (nat i) (rows source)) ! k = rows source ! (nat i + k)
             \<and> take L (drop (nat i + 1) (rows source)) ! k = rows source ! (nat i + 1 + k)"
    if "k < L" for k
    using that w(2) by simp
  from w len1 len2 nth show ?thesis
    unfolding Let_def L_def[symmetric] by simp
qed

text \<open>
  The scenario of the specification (\<open>bptt = 2\<close>, \<open>i = 0\<close> on the 6 by 4 tensor), and the
  truncated final window at \<open>i = 4\<close>.
\<close>

theorem get_batch_sequential_witness:
  "(0::int) \<le> 0
   \<and> 0 < size0 \<lparr>ncols = 4, rows = [[0, 6, 12, 18], [1, 7, 13, 19], [2, 8, 14, 20],
                            [3, 9, 15, 21], [4, 10, 16, 22], [5, 11, 17, 23::int]]\<rparr> - 1
   \<and> 0 \<le> bptt (default_args\<lparr>bptt := 2\<rparr>)
   \<and> get_batch (default_args\<lparr>bptt := 2\<rparr>) 9
        \<lparr>ncols = 4, rows = [[0, 6, 12, 18], [1, 7, 13, 19], [2, 8, 14, 20],
                            [3, 9, 15, 21], [4, 10, 16, 22], [5, 11, 17, 23]]\<rparr> 0 24 False
     = Inr (\<lparr>ncols = 4, rows = [[0, 6, 12, 18], [1, 7, 13, 19]]\<rparr>,
            [1, 7, 13, 19, 2, 8, 14, 20])
   \<and> get_batch (default_args\<lparr>bptt := 2\<rparr>) 9
        \<lparr>ncols = 4, rows = [[0, 6, 12, 18], [1, 7, 13, 19], [2, 8, 14, 20],
                            [3, 9, 15, 21], [4, 10, 16, 22], [5, 11, 17, 23]]\<rparr> 4 24 False
     = Inr (\<lparr>ncols = 4, rows = [[4, 10, 16, 22]]\<rparr>, [5, 11, 17, 23])"
  using get_batch_sequential[of 0 "\<lparr>ncols = 4, rows = [[0, 6, 12, 18], [1, 7, 13, 19], [2, 8, 14, 20],
                            [3, 9, 15, 21], [4, 10, 16, 22], [5, 11, 17, 23]]\<rparr>"
          "default_args\<lparr>bptt := 2\<rparr>" 9 24]
  by (simp add: ev)

text \<open>
  Claim C5. For a tensor with \<open>R\<close> rows, a start \<open>0 \<le> i < R\<close>, \<open>bptt \<ge> 1\<close> and
  \<open>norder \<ge> 0\<close>, the pad-start branch returns \<open>data = pad @ rows[i : i+L-1]\<close> and
  \<open>target = rows[i : i+L]\<close> flattened, with \<open>L = min(bptt, R - i)\<close>. The prefix \<open>pad\<close> has
  \<open>norder\<close> rows: every entry is \<open>pad_id\<close> without vocabulary padding; with it, row \<open>k\<close>
  holds the id \<open>ntokens - norder + k\<close>, these ids are distinct, and the first of them is the
  size of the corpus dictionary (they are appended to the vocabulary).
\<close>

theorem get_batch_padded:
  assumes "0 \<le> i" and "i < size0 source" and "1 \<le> bptt a" and "0 \<le> norder a"
  shows "let L = nat (min (bptt a) (size0 source - i));
             pad = (if pad_vocab a
                    then map (\<lambda>k. replicate (ncols source) (ntokens - norder a + int k))
                           [0 ..< nat (norder a)]
                    else replicate (nat (norder a)) (replicate (ncols source) pad_id))
         in \<exists>data target.
              get_batch a pad_id source i ntokens True = Inr (data, target)
              \<and> rows data = pad @ take (L - 1) (drop (nat i) (rows source))
              \<and> target = concat (take L (drop (nat i) (rows source)))
              \<and> ncols data = ncols source
              \<and> length pad = nat (norder a)
              \<and> 1 \<le> L \<and> int L \<le> bptt a \<and> nat i + L \<le> length (rows source)
              \<and> (pad_vocab a \<and> 0 < ncols source \<longrightarrow> distinct pad)
              \<and> (pad_vocab a \<longrightarrow> ntokens_of a dict_len - norder a = dict_len)"
proof -
  define L where "L = nat (min (bptt a) (size0 source - i))"
  define pad where "pad = (if pad_vocab a
                    then map (\<lambda>k. replicate (ncols source) (ntokens - norder a + int k))
                           [0 ..< nat (norder a)]
                    else replicate (nat (norder a)) (replicate (ncols source) pad_id))"
  note w = padded_window[OF assms L_def pad_def]
  have dist: "distinct pad" if "pad_vocab a" and "0 < ncols source"
  proof -
    have "inj_on (\<lambda>k. replicate (ncols source) (ntokens - norder a + int k)) (set [0 ..< nat (norder a)])"
    proof (rule inj_onI)
      fix x y
      assume "replicate (ncols source) (ntokens - norder a + int x)
              = replicate (ncols source) (ntokens - norder a + int y)"
      with that(2) show "x = y" by simp
    qed
    with that(1) show ?thesis by (simp add: pad_def distinct_map)
  qed
  have nt: "ntokens_of a dict_len - norder a = dict_len" if "pad_vocab a"
    using that by (simp add: ntokens_of_def)
  from w dist nt show ?thesis
    unfolding Let_def L_def[symmetric] pad_def[symmetric] by simp
qed

text \<open>
  Both kinds of prefix on the 6 by 4 tensor, with \<open>bptt = 2\<close> and \<open>norder = 4\<close>.
\<close>

theorem get_batch_padded_witness:
  "(0::int) \<le> 0
   \<and> 0 < size0 \<lparr>ncols = 4, rows = [[0, 6, 12, 18], [1, 7, 13, 19], [2, 8, 14, 20],
                            [3, 9, 15, 21], [4, 10, 16, 22], [5, 11, 17, 23::int]]\<rparr>
   \<and> 1 \<le> bptt (default_args\<lparr>bptt := 2, pad_vocab := True\<rparr>)
   \<and> 0 \<le> norder (default_args\<lparr>bptt := 2, pad_vocab := True\<rparr>)
   \<and> ntokens_of (default_args\<lparr>bptt := 2, pad_vocab := True\<rparr>) 24 = 28
   \<and> get_batch (default_args\<lparr>bptt := 2, pad_vocab := True\<rparr>) 9
        \<lparr>ncols = 4, rows = [[0, 6, 12, 18], [1, 7, 13, 19], [2, 8, 14, 20],
                            [3, 9, 15, 21], [4, 10, 16, 22], [5, 11, 17, 23]]\<rparr> 0 28 True
     = Inr (\<lparr>ncols = 4, rows = [[24, 24, 24, 24], [25, 25, 25, 25], [26, 26, 26, 26],
                                 [27, 27, 27, 27], [0, 6, 12, 18]]\<rparr>,
            [0, 6, 12, 18, 1, 7, 13, 19])
   \<and> get_batch (default_args\<lparr>bptt := 2\<rparr>) 9
        \<lparr>ncols = 4, rows = [[0, 6, 12, 18], [1, 7, 13, 19], [2, 8, 14, 20],
                            [3, 9, 15, 21], [4, 10, 16, 22], [5, 11, 17, 23]]\<rparr> 0 24 True
     = Inr (\<lparr>ncols = 4, rows = [[9, 9, 9, 9], [9, 9, 9, 9], [9, 9, 9, 9], [9, 9, 9, 9],
                                 [0, 6, 12, 18]]\<rparr>,
            [0, 6, 12, 18, 1, 7, 13, 19])"
  using get_batch_padded[of 0 "\<lparr>ncols = 4, rows = [[0, 6, 12, 18], [1, 7, 13, 19], [2, 8, 14, 20],
                            [3, 9, 15, 21], [4, 10, 16, 22], [5, 11, 17, 23]]\<rparr>"
          "default_args\<lparr>bptt := 2, pad_vocab := True\<rparr>" 28 9 24]
  by (simp add: ev eval_nat_numeral upto.simps)

text \<open>
  Claim C6 as stated fails: at \<open>i = 0\<close> with \<open>bptt = 2\<close> on the 6 by 4 tensor both modes
  return a target of two rows (eight tokens); the pad-start target is not longer.
\<close>

theorem one_more_prediction_counterexample:
  "get_batch (default_args\<lparr>bptt := 2\<rparr>) 9
        \<lparr>ncols = 4, rows = [[0, 6, 12, 18], [1, 7, 13, 19], [2, 8, 14, 20],
                            [3, 9, 15, 21], [4, 10, 16, 22], [5, 11, 17, 23]]\<rparr> 0 24 True
     = Inr (\<lparr>ncols = 4, rows = [[9, 9, 9, 9], [9, 9, 9, 9], [9, 9, 9, 9], [9, 9, 9, 9],
                                 [0, 6, 12, 18]]\<rparr>,
            [0, 6, 12, 18, 1, 7, 13, 19])
   \<and> get_batch (default_args\<lparr>bptt := 2\<rparr>) 9
        \<lparr>ncols = 4, rows = [[0, 6, 12, 18], [1, 7, 13, 19], [2, 8, 14, 20],
                            [3, 9, 15, 21], [4, 10, 16, 22], [5, 11, 17, 23]]\<rparr> 0 24 False
     = Inr (\<lparr>ncols = 4, rows = [[0, 6, 12, 18], [1, 7, 13, 19]]\<rparr>,
            [1, 7, 13, 19, 2, 8, 14, 20])
   \<and> length [0, 6, 12, 18, 1, 7, 13, 19 :: int] = length [1, 7, 13, 19, 2, 8, 14, 20 :: int]"
  by (simp add: ev eval_nat_numeral)

text \<open>
  Claim C6, amended. At a start valid in both modes the pad-start target is
  \<open>rows[i : i+Lp]\<close> and the sequential target is \<open>rows[i+1 : i+1+Ls]\<close>, both flattened, with
  \<open>Lp = min(bptt, R - i)\<close> and \<open>Ls = min(bptt, R - 1 - i)\<close>. The pad-start target starts one
  row earlier; it has as many rows as the sequential one when \<open>bptt \<le> R - 1 - i\<close>, and one
  more only in the truncated final window.
\<close>

theorem target_rows_compared:
  assumes "wf_tensor source" and "0 \<le> i" and "i < size0 source - 1"
    and "1 \<le> bptt a" and "0 \<le> norder a"
  shows "let Lp = nat (min (bptt a) (size0 source - i));
             Ls = nat (min (bptt a) (size0 source - 1 - i))
         in \<exists>dp tp ds ts.
              get_batch a pad_id source i ntokens True = Inr (dp, tp)
              \<and> get_batch a pad_id source i ntokens False = Inr (ds, ts)
              \<and> tp = concat (take Lp (drop (nat i) (rows source)))
              \<and> ts = concat (take Ls (drop (nat i + 1) (rows source)))
              \<and> length tp = Lp * ncols source
              \<and> length ts = Ls * ncols source
              \<and> Lp = (if bptt a \<le> size0 source - 1 - i then Ls else Ls + 1)"
proof -
  define Lp where "Lp = nat (min (bptt a) (size0 source - i))"
  define Ls where "Ls = nat (min (bptt a) (size0 source - 1 - i))"
  have i': "i < size0 source" using assms(3) by simp
  have b0: "0 \<le> bptt a" using assms(4) by simp
  note p = padded_window[OF assms(2) i' assms(4,5) Lp_def refl]
  note s = sequential_window[OF assms(2,3) b0 Ls_def]
  have "length (concat (take Lp (drop (nat i) (rows source))))
          = length (take Lp (drop (nat i) (rows source))) * ncols source"
    by (rule length_concat_uniform) (rule wf_take_drop[OF assms(1)])
  then have lp: "length (concat (take Lp (drop (nat i) (rows source)))) = Lp * ncols source"
    using p(2) by simp
  have "length (concat (take Ls (drop (nat i + 1) (rows source))))
          = length (take Ls (drop (nat i + 1) (rows source))) * ncols source"
    by (rule length_concat_uniform) (rule wf_take_drop[OF assms(1)])
  then have ls: "length (concat (take Ls (drop (nat i + 1) (rows source)))) = Ls * ncols source"
    using s(2) by simp
  have rel: "Lp = (if bptt a \<le> size0 source - 1 - i then Ls else Ls + 1)"
    using assms(2,3,4) unfolding Lp_def Ls_def min_def by (auto; linarith)
  from p(1) s(1) lp ls rel show ?thesis
    unfolding Let_def Lp_def[symmetric] Ls_def[symmetric] by simp
qed

text \<open>
  The truncated final window at \<open>i = 4\<close>: two target rows against one.
\<close>

theorem target_rows_compared_witness:
  "wf_tensor \<lparr>ncols = 4, rows = [[0, 6, 12, 18], [1, 7, 13, 19], [2, 8, 14, 20],
                            [3, 9, 15, 21], [4, 10, 16, 22], [5, 11, 17, 23::int]]\<rparr>
   \<and> (0::int) \<le> 4
   \<and> 4 < size0 \<lparr>ncols = 4, rows = [[0, 6, 12, 18], [1, 7, 13, 19], [2, 8, 14, 20],
                            [3, 9, 15, 21], [4, 10, 16, 22], [5, 11, 17, 23::int]]\<rparr> - 1
   \<and> 1 \<le> bptt (default_args\<lparr>bptt := 2\<rparr>) \<and> 0 \<le> norder (default_args\<lparr>bptt := 2\<rparr>)
   \<and> get_batch (default_args\<lparr>bptt := 2\<rparr>) 9
        \<lparr>ncols = 4, rows = [[0, 6, 12, 18], [1, 7, 13, 19], [2, 8, 14, 20],
                            [3, 9, 15, 21], [4, 10, 16, 22], [5, 11, 17, 23]]\<rparr> 4 24 True
     = Inr (\<lparr>ncols = 4, rows = [[9, 9, 9, 9], [9, 9, 9, 9], [9, 9, 9, 9], [9, 9, 9, 9],
                                 [4, 10, 16, 22]]\<rparr>,
            [4, 10, 16, 22, 5, 11, 17, 23])
   \<and> get_batch (default_args\<lparr>bptt := 2\<rparr>) 9
        \<lparr>ncols = 4, rows = [[0, 6, 12, 18], [1, 7, 13, 19], [2, 8, 14, 20],
                            [3, 9, 15, 21], [4, 10, 16, 22], [5, 11, 17, 23]]\<rparr> 4 24 False
     = Inr (\<lparr>ncols = 4, rows = [[4, 10, 16, 22]]\<rparr>, [5, 11, 17, 23])"
  using target_rows_compared[of "\<lparr>ncols = 4, rows = [[0, 6, 12, 18], [1, 7, 13, 19], [2, 8, 14, 20],
                            [3, 9, 15, 21], [4, 10, 16, 22], [5, 11, 17, 23]]\<rparr>" 4
          "default_args\<lparr>bptt := 2\<rparr>" 9 24]
  by (simp add: ev eval_nat_numeral)

text \<open>
  Claim C7 as stated fails in the pad-start mode: with the default \<open>norder = 4\<close> the data of
  the window at \<open>i = 4\<close> has five rows, its target two rows of four tokens.
\<close>

theorem same_length_counterexample:
  "get_batch default_args 9
        \<lparr>ncols = 4, rows = [[0, 6, 12, 18], [1, 7, 13, 19], [2, 8, 14, 20],
                            [3, 9, 15, 21], [4, 10, 16, 22], [5, 11, 17, 23]]\<rparr> 4 24 True
     = Inr (\<lparr>ncols = 4, rows = [[9, 9, 9, 9], [9, 9, 9, 9], [9, 9, 9, 9], [9, 9, 9, 9],
                                 [4, 10, 16, 22]]\<rparr>,
            [4, 10, 16, 22, 5, 11, 17, 23])
   \<and> length [[9, 9, 9, 9], [9, 9, 9, 9], [9, 9, 9, 9], [9, 9, 9, 9], [4, 10, 16, 22 :: int]] = 5
   \<and> length [4, 10, 16, 22, 5, 11, 17, 23 :: int] = 2 * 4"
  by (simp add: ev eval_nat_numeral)

text \<open>
  Claim C7, amended. In the sequential mode data and target have the same number \<open>L\<close> of
  rows, and in every column target row \<open>k\<close> is the token that follows data row \<open>k\<close>. In the
  pad-start mode the data has \<open>norder + L - 1\<close> rows and the target \<open>L\<close>: the first
  \<open>norder\<close> data rows are padding, target row \<open>k\<close> is the token at row \<open>i + k\<close>, and for
  \<open>k \<ge> 1\<close> the token before it is data row \<open>norder + k - 1\<close>, the last row of the context
  \<open>data[k : k + norder]\<close> (for \<open>k = 0\<close> the context is all padding).
\<close>

theorem window_alignment:
  assumes "wf_tensor source" and "0 \<le> i" and "0 \<le> bptt a"
  shows "(i < size0 source - 1 \<longrightarrow>
           (\<exists>data target.
              get_batch a pad_id source i ntokens False = Inr (data, target)
              \<and> (let L = nat (min (bptt a) (size0 source - 1 - i))
                 in length (rows data) = L
                    \<and> length target = L * ncols source
                    \<and> (\<forall>k < L. \<forall>c < ncols source.
                          rows data ! k ! c = rows source ! (nat i + k) ! c
                          \<and> target ! (k * ncols source + c) = rows source ! (nat i + k + 1) ! c))))
       \<and> (i < size0 source \<and> 1 \<le> bptt a \<and> 0 \<le> norder a \<longrightarrow>
           (\<exists>data target.
              get_batch a pad_id source i ntokens True = Inr (data, target)
              \<and> (let L = nat (min (bptt a) (size0 source - i)); n = nat (norder a)
                 in length (rows data) = n + L - 1
                    \<and> length target = L * ncols source
                    \<and> (\<forall>k < n. \<forall>c < ncols source.
                          rows data ! k ! c = (if pad_vocab a then ntokens - norder a + int k else pad_id))
                    \<and> (\<forall>k < L. \<forall>c < ncols source.
                          target ! (k * ncols source + c) = rows source ! (nat i + k) ! c
                          \<and> (0 < k \<longrightarrow>
                                rows data ! (n + k - 1) ! c = rows source ! (nat i + k - 1) ! c)))))"
proof (intro conjI impI)
  assume lt: "i < size0 source - 1"
  define L where "L = nat (min (bptt a) (size0 source - 1 - i))"
  define tg where "tg = take L (drop (nat i + 1) (rows source))"
  note w = sequential_window[OF assms(2) lt assms(3) L_def]
  have u: "\<forall>r \<in> set tg. length r = ncols source"
    unfolding tg_def by (rule wf_take_drop[OF assms(1)])
  have ltg: "length tg = L" using w(2) by (simp add: tg_def)
  have len: "length (concat tg) = L * ncols source"
    using length_concat_uniform[OF u] ltg by simp
  have tok: "take L (drop (nat i) (rows source)) ! k ! c = rows source ! (nat i + k) ! c
             \<and> concat tg ! (k * ncols source + c) = rows source ! (nat i + k + 1) ! c"
    if "k < L" and "c < ncols source" for k c
  proof -
    have "concat tg ! (k * ncols source + c) = tg ! k ! c"
      using u that ltg by (intro concat_uniform_nth) simp_all
    moreover have "tg ! k = rows source ! (nat i + k + 1)"
      using that(1) w(2) by (simp add: tg_def add.commute add.left_commute)
    moreover have "take L (drop (nat i) (rows source)) ! k = rows source ! (nat i + k)"
      using that(1) w(2) by simp
    ultimately show ?thesis by simp
  qed
  have l1: "length (take L (drop (nat i) (rows source))) = L" using w(2) by simp
  from w(1) l1 len tok
  show "\<exists>data target.
              get_batch a pad_id source i ntokens False = Inr (data, target)
              \<and> (let L = nat (min (bptt a) (size0 source - 1 - i))
                 in length (rows data) = L
                    \<and> length target = L * ncols source
                    \<and> (\<forall>k < L. \<forall>c < ncols source.
                          rows data ! k ! c = rows source ! (nat i + k) ! c
                          \<and> target ! (k * ncols source + c) = rows source ! (nat i + k + 1) ! c))"
    unfolding Let_def L_def[symmetric] tg_def[symmetric] by simp
next
  assume h: "i < size0 source \<and> 1 \<le> bptt a \<and> 0 \<le> norder a"
  define L where "L = nat (min (bptt a) (size0 source - i))"
  define n where "n = nat (norder a)"
  define pad where "pad = (if pad_vocab a
                then map (\<lambda>k. replicate (ncols source) (ntokens - norder a + int k))
                       [0 ..< nat (norder a)]
                else replicate (nat (norder a)) (replicate (ncols source) pad_id))"
  define tg where "tg = take L (drop (nat i) (rows source))"
  from h have h1: "i < size0 source" and h2: "1 \<le> bptt a" and h3: "0 \<le> norder a" by simp_all
  note w = padded_window[OF assms(2) h1 h2 h3 L_def pad_def]
  have lpad: "length pad = n" using w(5) by (simp add: n_def)
  have u: "\<forall>r \<in> set tg. length r = ncols source"
    unfolding tg_def by (rule wf_take_drop[OF assms(1)])
  have ltg: "length tg = L" using w(2) by (simp add: tg_def)
  have len: "length (concat tg) = L * ncols source"
    using length_concat_uniform[OF u] ltg by simp
  have ld: "length (pad @ take (L - 1) (drop (nat i) (rows source))) = n + L - 1"
    using w(2,3) lpad by simp
  have padv: "(pad @ take (L - 1) (drop (nat i) (rows source))) ! k ! c
                = (if pad_vocab a then ntokens - norder a + int k else pad_id)"
    if "k < n" and "c < ncols source" for k c
    using that lpad by (simp add: nth_append pad_def n_def)
  have tok: "concat tg ! (k * ncols source + c) = rows source ! (nat i + k) ! c
             \<and> (0 < k \<longrightarrow> (pad @ take (L - 1) (drop (nat i) (rows source))) ! (n + k - 1) ! c
                              = rows source ! (nat i + k - 1) ! c)"
    if "k < L" and "c < ncols source" for k c
  proof -
    have "concat tg ! (k * ncols source + c) = tg ! k ! c"
      using u that ltg by (intro concat_uniform_nth) simp_all
    moreover have "tg ! k = rows source ! (nat i + k)"
      using that(1) w(2) by (simp add: tg_def)
    moreover have "(pad @ take (L - 1) (drop (nat i) (rows source))) ! (n + k - 1)
                     = rows source ! (nat i + k - 1)" if "0 < k"
    proof -
      have "n + k - 1 = length pad + (k - 1)" using that lpad by simp
      then have "(pad @ take (L - 1) (drop (nat i) (rows source))) ! (n + k - 1)
              = take (L - 1) (drop (nat i) (rows source)) ! (k - 1)"
        by (simp only: nth_append_length_plus)
      also have "\<dots> = rows source ! (nat i + (k - 1))"
        using that \<open>k < L\<close> w(2) by simp
      finally show ?thesis using that by simp
    qed
    ultimately show ?thesis by simp
  qed
  from w(1) ld len padv tok
  show "\<exists>data target.
              get_batch a pad_id source i ntokens True = Inr (data, target)
              \<and> (let L = nat (min (bptt a) (size0 source - i)); n = nat (norder a)
                 in length (rows data) = n + L - 1
                    \<and> length target = L * ncols source
                    \<and> (\<forall>k < n. \<forall>c < ncols source.
                          rows data ! k ! c = (if pad_vocab a then ntokens - norder a + int k else pad_id))
                    \<and> (\<forall>k < L. \<forall>c < ncols source.
                          target ! (k * ncols source + c) = rows source ! (nat i + k) ! c
                          \<and> (0 < k \<longrightarrow>
                                rows data ! (n + k - 1) ! c = rows source ! (nat i + k - 1) ! c)))"
    unfolding Let_def L_def[symmetric] tg_def[symmetric] n_def[symmetric] by simp
qed

text \<open>
  Both modes at \<open>i = 0\<close> with \<open>bptt = 2\<close>.
\<close>

theorem window_alignment_witness:
  "wf_tensor \<lparr>ncols = 4, rows = [[0, 6, 12, 18], [1, 7, 13, 19], [2, 8, 14, 20],
                            [3, 9, 15, 21], [4, 10, 16, 22], [5, 11, 17, 23::int]]\<rparr>
   \<and> (0::int) \<le> 0 \<and> 0 \<le> bptt (default_args\<lparr>bptt := 2\<rparr>)
   \<and> 0 < size0 \<lparr>ncols = 4, rows = [[0, 6, 12, 18], [1, 7, 13, 19], [2, 8, 14, 20],
                            [3, 9, 15, 21], [4, 10, 16, 22], [5, 11, 17, 23::int]]\<rparr>
   \<and> 0 < size0 \<lparr>ncols = 4, rows = [[0, 6, 12, 18], [1, 7, 13, 19], [2, 8, 14, 20],
                            [3, 9, 15, 21], [4, 10, 16, 22], [5, 11, 17, 23::int]]\<rparr> - 1
   \<and> 1 \<le> bptt (default_args\<lparr>bptt := 2\<rparr>) \<and> 0 \<le> norder (default_args\<lparr>bptt := 2\<rparr>)
   \<and> get_batch (default_args\<lparr>bptt := 2\<rparr>) 9
        \<lparr>ncols = 4, rows = [[0, 6, 12, 18], [1, 7, 13, 19], [2, 8, 14, 20],
                            [3, 9, 15, 21], [4, 10, 16, 22], [5, 11, 17, 23]]\<rparr> 0 24 False
     = Inr (\<lparr>ncols = 4, rows = [[0, 6, 12, 18], [1, 7, 13, 19]]\<rparr>,
            [1, 7, 13, 19, 2, 8, 14, 20])
   \<and> get_batch (default_args\<lparr>bptt := 2\<rparr>) 9
        \<lparr>ncols = 4, rows = [[0, 6, 12, 18], [1, 7, 13, 19], [2, 8, 14, 20],
                            [3, 9, 15, 21], [4, 10, 16, 22], [5, 11, 17, 23]]\<rparr> 0 24 True
     = Inr (\<lparr>ncols = 4, rows = [[9, 9, 9, 9], [9, 9, 9, 9], [9, 9, 9, 9], [9, 9, 9, 9],
                                 [0, 6, 12, 18]]\<rparr>,
            [0, 6, 12, 18, 1, 7, 13, 19])"
  using window_alignment[of "\<lparr>ncols = 4, rows = [[0, 6, 12, 18], [1, 7, 13, 19], [2, 8, 14, 20],
                            [3, 9, 15, 21], [4, 10, 16, 22], [5, 11, 17, 23]]\<rparr>" 0
          "default_args\<lparr>bptt := 2\<rparr>" 9 24]
  by (simp add: ev eval_nat_numeral)

subsection \<open>The training controller\<close>

lemmas cev = training_def init_controller_def setup_optimizer_def default_args_def bindE_def
  after_evaluation_def improved_def not_best_def float_truthy_def propagate_lr_def py_truediv_def

lemma propagate_fields:
  assumes "propagate_lr a s = Inr s'"
  shows "lr s' = lr s" "best_val_loss s' = best_val_loss s" "patience_count s' = patience_count s"
    "written s' = written s" "decay_log s' = decay_log s"
  using assms by (auto simp: propagate_lr_def split: if_splits option.splits)

lemma propagate_ok:
  assumes "optim a = ''sgd'' \<or> optimizer s \<noteq> None"
  shows "\<exists>s'. propagate_lr a s = Inr s' \<and> (optim a = ''sgd'' \<or> optimizer s' \<noteq> None)"
  using assms by (auto simp: propagate_lr_def split: option.splits)

lemma improved_iff:
  "improved best v \<longleftrightarrow> best = None \<or> best = Some 0 \<or> (\<exists>b. best = Some b \<and> v < b)"
  by (auto simp: improved_def not_best_def float_truthy_def split: option.splits)

lemma step_save:
  assumes "improved (best_val_loss s) v" and "optim a = ''sgd'' \<or> optimizer s \<noteq> None"
  shows "\<exists>s'. after_evaluation a m v s = Inr s' \<and> written s' = written s @ [m]
           \<and> best_val_loss s' = Some v \<and> patience_count s' = 0 \<and> lr s' = lr s
           \<and> decay_log s' = decay_log s \<and> (optim a = ''sgd'' \<or> optimizer s' \<noteq> None)"
proof -
  let ?t = "s\<lparr>written := written s @ [m], best_val_loss := Some v, patience_count := 0\<rparr>"
  have "optim a = ''sgd'' \<or> optimizer ?t \<noteq> None" using assms(2) by simp
  from propagate_ok[OF this] obtain s' where
    s': "propagate_lr a ?t = Inr s'" "optim a = ''sgd'' \<or> optimizer s' \<noteq> None" by blast
  have "after_evaluation a m v s = Inr s'"
    using assms(1) s'(1) by (simp add: after_evaluation_def bindE_def)
  with propagate_fields[OF s'(1)] s'(2) show ?thesis by simp
qed

lemma step_wait:
  assumes "\<not> improved (best_val_loss s) v" and "patience_count s \<noteq> patience a"
    and "optim a = ''sgd'' \<or> optimizer s \<noteq> None"
  shows "\<exists>s'. after_evaluation a m v s = Inr s' \<and> written s' = written s
           \<and> best_val_loss s' = best_val_loss s \<and> patience_count s' = patience_count s + 1
           \<and> lr s' = lr s \<and> decay_log s' = decay_log s
           \<and> (optim a = ''sgd'' \<or> optimizer s' \<noteq> None)"
proof -
  let ?t = "s\<lparr>patience_count := patience_count s + 1\<rparr>"
  have "optim a = ''sgd'' \<or> optimizer ?t \<noteq> None" using assms(3) by simp
  from propagate_ok[OF this] obtain s' where
    s': "propagate_lr a ?t = Inr s'" "optim a = ''sgd'' \<or> optimizer s' \<noteq> None" by blast
  have "after_evaluation a m v s = Inr s'"
    using assms(1,2) s'(1) by (simp add: after_evaluation_def bindE_def)
  with propagate_fields[OF s'(1)] s'(2) show ?thesis by simp
qed

lemma step_decay:
  assumes "\<not> improved (best_val_loss s) v" and "patience_count s = patience a"
    and "lr_decay_rate a \<noteq> 0" and "optim a = ''sgd'' \<or> optimizer s \<noteq> None"
  shows "\<exists>s'. after_evaluation a m v s = Inr s' \<and> written s' = written s
           \<and> best_val_loss s' = best_val_loss s \<and> patience_count s' = 0
           \<and> lr s' = lr s / lr_decay_rate a
           \<and> decay_log s' = decay_log s @ [lr s / lr_decay_rate a]
           \<and> (optim a = ''sgd'' \<or> optimizer s' \<noteq> None)"
proof -
  let ?r = "lr s / lr_decay_rate a"
  let ?t = "s\<lparr>lr := ?r, decay_log := decay_log s @ [?r], patience_count := 0\<rparr>"
  have "optim a = ''sgd'' \<or> optimizer ?t \<noteq> None" using assms(4) by simp
  from propagate_ok[OF this] obtain s' where
    s': "propagate_lr a ?t = Inr s'" "optim a = ''sgd'' \<or> optimizer s' \<noteq> None" by blast
  have "after_evaluation a m v s = Inr s'"
    using assms(1,2,3) s'(1) by (simp add: after_evaluation_def bindE_def py_truediv_def)
  with propagate_fields[OF s'(1)] s'(2) show ?thesis by simp
qed

lemma step_lr:
  assumes "after_evaluation a m v s = Inr s'"
  shows "lr s' = (if \<not> improved (best_val_loss s) v \<and> patience_count s = patience a
                  then lr s / lr_decay_rate a else lr s)
         \<and> (\<not> improved (best_val_loss s) v \<and> patience_count s = patience a
              \<longrightarrow> patience_count s' = 0)"
proof -
  from assms obtain t where
    t: "(if improved (best_val_loss s) v then
          Inr (s\<lparr>written := written s @ [m], best_val_loss := Some v, patience_count := 0\<rparr>)
        else if patience_count s = patience a then
          bindE (py_truediv (lr s) (lr_decay_rate a)) (\<lambda>lr'.
            Inr (s\<lparr>lr := lr', decay_log := decay_log s @ [lr'], patience_count := 0\<rparr>))
        else Inr (s\<lparr>patience_count := patience_count s + 1\<rparr>)) = Inr t"
    and p: "propagate_lr a t = Inr s'"
    by (auto simp: after_evaluation_def bindE_def split: sum.splits)
  have "lr t = (if \<not> improved (best_val_loss s) v \<and> patience_count s = patience a
                  then lr s / lr_decay_rate a else lr s)
         \<and> (\<not> improved (best_val_loss s) v \<and> patience_count s = patience a
              \<longrightarrow> patience_count t = 0)"
    using t by (auto simp: bindE_def py_truediv_def split: if_splits)
  with propagate_fields(1,3)[OF p] show ?thesis by simp
qed

lemma run_append:
  "run_evaluations a (xs @ ys) s = bindE (run_evaluations a xs s) (run_evaluations a ys)"
  by (induction xs arbitrary: s) (auto simp: bindE_def split: sum.splits)

lemma run_waiting:
  assumes "\<forall>x \<in> set obs. \<not> improved (best_val_loss s) (snd x)"
    and "optim a = ''sgd'' \<or> optimizer s \<noteq> None"
    and "patience_count s + int (length obs) \<le> patience a"
  shows "\<exists>s'. run_evaluations a obs s = Inr s' \<and> lr s' = lr s
           \<and> patience_count s' = patience_count s + int (length obs)
           \<and> best_val_loss s' = best_val_loss s \<and> decay_log s' = decay_log s
           \<and> written s' = written s \<and> (optim a = ''sgd'' \<or> optimizer s' \<noteq> None)"
  using assms
proof (induction obs arbitrary: s)
  case Nil
  then show ?case by simp
next
  case (Cons x obs)
  obtain m v where x: "x = (m, v)" by (cases x)
  have ni: "\<not> improved (best_val_loss s) v" using Cons.prems(1) x by simp
  have ne: "patience_count s \<noteq> patience a" using Cons.prems(3) by simp
  from step_wait[OF ni ne Cons.prems(2), of m] obtain s1 where
    s1: "after_evaluation a m v s = Inr s1" "written s1 = written s"
      "best_val_loss s1 = best_val_loss s" "patience_count s1 = patience_count s + 1"
      "lr s1 = lr s" "decay_log s1 = decay_log s" "optim a = ''sgd'' \<or> optimizer s1 \<noteq> None"
    by blast
  have "\<forall>x \<in> set obs. \<not> improved (best_val_loss s1) (snd x)"
    using Cons.prems(1) s1(3) by simp
  moreover have "patience_count s1 + int (length obs) \<le> patience a"
    using Cons.prems(3) s1(4) by simp
  ultimately obtain s' where
    s': "run_evaluations a obs s1 = Inr s'" "lr s' = lr s1"
      "patience_count s' = patience_count s1 + int (length obs)"
      "best_val_loss s' = best_val_loss s1" "decay_log s' = decay_log s1"
      "written s' = written s1" "optim a = ''sgd'' \<or> optimizer s' \<noteq> None"
    using Cons.IH[OF _ s1(7)] by blast
  have "run_evaluations a (x # obs) s = Inr s'"
    using s1(1) s'(1) x by (simp add: bindE_def)
  with s1 s' show ?case by simp
qed

text \<open>
  Claim C1 as stated fails: with \<open>patience = 2\<close>, after a first (improving) evaluation and
  two non-improving ones the rate is still the initial \<open>1/1000\<close> and the counter is 2; no
  decay has happened after the second non-improving evaluation.
\<close>

theorem decay_after_second_counterexample:
  "training (default_args\<lparr>patience := 2\<rparr>) [(1::nat, 1), (2, 2), (3, 2)]
     = Inr \<lparr>lr = 1 / 1000,
            optimizer = Some \<lparr>opt_lr = 1 / 1000, opt_weight_decay = 1 / 100\<rparr>,
            best_val_loss = Some 1, patience_count = 2, written = [1], decay_log = []\<rparr>"
  by (simp add: cev)

text \<open>
  Claim C1, amended. An evaluation divides the rate by the decay factor exactly when it does
  not improve and finds the counter equal to the patience threshold; it then resets the
  counter, and otherwise leaves the rate as it is. Starting from counter 0, \<open>patience\<close>
  consecutive non-improving evaluations leave the rate unchanged and bring the counter to
  \<open>patience\<close>; the next one, the \<open>(patience + 1)\<close>-th, decays the rate exactly once and
  resets the counter.
\<close>

theorem decay_rule:
  "(after_evaluation a m v s = Inr s' \<longrightarrow>
      lr s' = (if \<not> improved (best_val_loss s) v \<and> patience_count s = patience a
               then lr s / lr_decay_rate a else lr s)
      \<and> (\<not> improved (best_val_loss s) v \<and> patience_count s = patience a
           \<longrightarrow> patience_count s' = 0))
   \<and> (patience_count s = 0 \<and> 0 \<le> patience a \<and> lr_decay_rate a \<noteq> 0
        \<and> (optim a = ''sgd'' \<or> optimizer s \<noteq> None)
        \<and> length obs = nat (patience a) + 1
        \<and> (\<forall>x \<in> set obs. \<not> improved (best_val_loss s) (snd x)) \<longrightarrow>
      (\<forall>n \<le> nat (patience a).
          \<exists>s1. run_evaluations a (take n obs) s = Inr s1 \<and> lr s1 = lr s
                \<and> patience_count s1 = int n \<and> decay_log s1 = decay_log s)
      \<and> (\<exists>s2. run_evaluations a obs s = Inr s2 \<and> lr s2 = lr s / lr_decay_rate a
                \<and> patience_count s2 = 0
                \<and> decay_log s2 = decay_log s @ [lr s / lr_decay_rate a]))"
proof (rule conjI)
  show "after_evaluation a m v s = Inr s' \<longrightarrow>
      lr s' = (if \<not> improved (best_val_loss s) v \<and> patience_count s = patience a
               then lr s / lr_decay_rate a else lr s)
      \<and> (\<not> improved (best_val_loss s) v \<and> patience_count s = patience a
           \<longrightarrow> patience_count s' = 0)"
    by (rule impI) (rule step_lr)
next
  show "patience_count s = 0 \<and> 0 \<le> patience a \<and> lr_decay_rate a \<noteq> 0
        \<and> (optim a = ''sgd'' \<or> optimizer s \<noteq> None)
        \<and> length obs = nat (patience a) + 1
        \<and> (\<forall>x \<in> set obs. \<not> improved (best_val_loss s) (snd x)) \<longrightarrow>
      (\<forall>n \<le> nat (patience a).
          \<exists>s1. run_evaluations a (take n obs) s = Inr s1 \<and> lr s1 = lr s
                \<and> patience_count s1 = int n \<and> decay_log s1 = decay_log s)
      \<and> (\<exists>s2. run_evaluations a obs s = Inr s2 \<and> lr s2 = lr s / lr_decay_rate a
                \<and> patience_count s2 = 0
                \<and> decay_log s2 = decay_log s @ [lr s / lr_decay_rate a])"
  proof (rule impI)
    assume h: "patience_count s = 0 \<and> 0 \<le> patience a \<and> lr_decay_rate a \<noteq> 0
        \<and> (optim a = ''sgd'' \<or> optimizer s \<noteq> None)
        \<and> length obs = nat (patience a) + 1
        \<and> (\<forall>x \<in> set obs. \<not> improved (best_val_loss s) (snd x))"
    from h have ok: "optim a = ''sgd'' \<or> optimizer s \<noteq> None" by simp
    have first: "\<exists>s1. run_evaluations a (take n obs) s = Inr s1 \<and> lr s1 = lr s
                \<and> patience_count s1 = int n \<and> decay_log s1 = decay_log s"
      if n: "n \<le> nat (patience a)" for n
    proof -
      have ni: "\<forall>x \<in> set (take n obs). \<not> improved (best_val_loss s) (snd x)"
        using h by (auto dest: in_set_takeD)
      have ln: "length (take n obs) = n" using h n by simp
      have le: "patience_count s + int (length (take n obs)) \<le> patience a"
        using h n ln by linarith
      from run_waiting[OF ni ok le] h ln show ?thesis by auto
    qed
    from h have ne: "obs \<noteq> []" by auto
    define pre where "pre = butlast obs"
    obtain m v where lst: "last obs = (m, v)" by (cases "last obs")
    have obs: "obs = pre @ [(m, v)]" using ne lst by (simp add: pre_def flip: lst)
    have ni: "\<forall>x \<in> set pre. \<not> improved (best_val_loss s) (snd x)"
      using h obs by auto
    have lp: "int (length pre) = patience a" using h by (simp add: pre_def)
    have le: "patience_count s + int (length pre) \<le> patience a" using h lp by simp
    from run_waiting[OF ni ok le] obtain s1 where
      s1: "run_evaluations a pre s = Inr s1" "lr s1 = lr s"
        "patience_count s1 = patience_count s + int (length pre)"
        "best_val_loss s1 = best_val_loss s" "decay_log s1 = decay_log s"
        "optim a = ''sgd'' \<or> optimizer s1 \<noteq> None"
      by blast
    have ni1: "\<not> improved (best_val_loss s1) v" using h obs s1(4) by auto
    have eq: "patience_count s1 = patience a" using s1(3) lp h by simp
    from h have d: "lr_decay_rate a \<noteq> 0" by simp
    from step_decay[OF ni1 eq d s1(6), of m] obtain s2 where
      s2: "after_evaluation a m v s1 = Inr s2" "patience_count s2 = 0"
        "lr s2 = lr s1 / lr_decay_rate a" "decay_log s2 = decay_log s1 @ [lr s1 / lr_decay_rate a]"
      by blast
    have "run_evaluations a obs s = Inr s2"
      unfolding obs run_append using s1(1) s2(1) by (simp add: bindE_def)
    with s2 s1 have "\<exists>s2. run_evaluations a obs s = Inr s2 \<and> lr s2 = lr s / lr_decay_rate a
                \<and> patience_count s2 = 0
                \<and> decay_log s2 = decay_log s @ [lr s / lr_decay_rate a]"
      by simp
    with first show "(\<forall>n \<le> nat (patience a).
          \<exists>s1. run_evaluations a (take n obs) s = Inr s1 \<and> lr s1 = lr s
                \<and> patience_count s1 = int n \<and> decay_log s1 = decay_log s)
      \<and> (\<exists>s2. run_evaluations a obs s = Inr s2 \<and> lr s2 = lr s / lr_decay_rate a
                \<and> patience_count s2 = 0
                \<and> decay_log s2 = decay_log s @ [lr s / lr_decay_rate a])"
      by blast
  qed
qed

text \<open>
  With \<open>patience = 2\<close>: no decay after two non-improving evaluations, one decay at the
  third.
\<close>

theorem decay_rule_witness:
  "patience_count \<lparr>lr = 1 / 1000,
            optimizer = Some \<lparr>opt_lr = 1 / 1000, opt_weight_decay = 1 / 100\<rparr>,
            best_val_loss = Some 1, patience_count = 0, written = [1::nat], decay_log = []\<rparr> = 0
   \<and> patience (default_args\<lparr>patience := 2\<rparr>) = 2
   \<and> lr_decay_rate (default_args\<lparr>patience := 2\<rparr>) = 4
   \<and> length [(2::nat, 2::real), (3, 2), (4, 2)] = nat 2 + 1
   \<and> \<not> improved (Some 1) 2
   \<and> after_evaluation (default_args\<lparr>patience := 2\<rparr>) 2 2
        \<lparr>lr = 1 / 1000,
            optimizer = Some \<lparr>opt_lr = 1 / 1000, opt_weight_decay = 1 / 100\<rparr>,
            best_val_loss = Some 1, patience_count = 0, written = [1::nat], decay_log = []\<rparr>
      = Inr \<lparr>lr = 1 / 1000,
            optimizer = Some \<lparr>opt_lr = 1 / 1000, opt_weight_decay = 1 / 100\<rparr>,
            best_val_loss = Some 1, patience_count = 1, written = [1], decay_log = []\<rparr>
   \<and> run_evaluations (default_args\<lparr>patience := 2\<rparr>) [(2, 2), (3, 2)]
        \<lparr>lr = 1 / 1000,
            optimizer = Some \<lparr>opt_lr = 1 / 1000, opt_weight_decay = 1 / 100\<rparr>,
            best_val_loss = Some 1, patience_count = 0, written = [1::nat], decay_log = []\<rparr>
      = Inr \<lparr>lr = 1 / 1000,
            optimizer = Some \<lparr>opt_lr = 1 / 1000, opt_weight_decay = 1 / 100\<rparr>,
            best_val_loss = Some 1, patience_count = 2, written = [1], decay_log = []\<rparr>
   \<and> run_evaluations (default_args\<lparr>patience := 2\<rparr>) [(2, 2), (3, 2), (4, 2)]
        \<lparr>lr = 1 / 1000,
            optimizer = Some \<lparr>opt_lr = 1 / 1000, opt_weight_decay = 1 / 100\<rparr>,
            best_val_loss = Some 1, patience_count = 0, written = [1::nat], decay_log = []\<rparr>
      = Inr \<lparr>lr = 1 / 4000,
            optimizer = Some \<lparr>opt_lr = 1 / 4000, opt_weight_decay = 1 / 100\<rparr>,
            best_val_loss = Some 1, patience_count = 0, written = [1], decay_log = [1 / 4000]\<rparr>"
  using decay_rule[of "default_args\<lparr>patience := 2\<rparr>" 2 2
      "\<lparr>lr = 1 / 1000,
            optimizer = Some \<lparr>opt_lr = 1 / 1000, opt_weight_decay = 1 / 100\<rparr>,
            best_val_loss = Some 1, patience_count = 0, written = [1::nat], decay_log = []\<rparr>"
      "\<lparr>lr = 1 / 1000,
            optimizer = Some \<lparr>opt_lr = 1 / 1000, opt_weight_decay = 1 / 100\<rparr>,
            best_val_loss = Some 1, patience_count = 1, written = [1::nat], decay_log = []\<rparr>"
      "[(2, 2), (3, 2), (4, 2)]"]
  by (simp add: cev)

text \<open>
  Claim C2 fails on the code. The first evaluation records the best loss \<open>0\<close> with model 1;
  the second has the larger loss \<open>1/2\<close>, yet model 2 is written to the checkpoint and
  \<open>1/2\<close> recorded as best, since \<^verbatim>\<open>not best_val_loss\<close> holds for \<^verbatim>\<open>0.0\<close>.
\<close>

theorem checkpoint_overwritten_after_zero_loss:
  "training default_args [(1::nat, 0), (2, 1 / 2)]
     = Inr \<lparr>lr = 1 / 1000,
            optimizer = Some \<lparr>opt_lr = 1 / 1000, opt_weight_decay = 1 / 100\<rparr>,
            best_val_loss = Some (1 / 2), patience_count = 0, written = [1, 2], decay_log = []\<rparr>"
  by (simp add: cev)

text \<open>
  Claim C10. When the recorded best loss is \<open>0\<close>, the next evaluation takes the improvement
  branch whatever its loss: the model is saved, the loss recorded as best, the counter reset
  (and the rate not touched).
\<close>

theorem zero_best_always_improves:
  assumes "best_val_loss s = Some 0" and "optim a = ''sgd'' \<or> optimizer s \<noteq> None"
  shows "\<exists>s'. after_evaluation a m val_loss s = Inr s'
           \<and> written s' = written s @ [m]
           \<and> best_val_loss s' = Some val_loss
           \<and> patience_count s' = 0
           \<and> lr s' = lr s \<and> decay_log s' = decay_log s"
proof -
  have "improved (best_val_loss s) val_loss"
    using assms(1) by (simp add: improved_iff)
  from step_save[OF this assms(2)] show ?thesis by blast
qed

text \<open>
  A loss of \<open>1/2\<close>, not below the recorded \<open>0\<close>, is saved.
\<close>

theorem zero_best_always_improves_witness:
  "best_val_loss \<lparr>lr = 1 / 1000,
            optimizer = Some \<lparr>opt_lr = 1 / 1000, opt_weight_decay = 1 / 100\<rparr>,
            best_val_loss = Some 0, patience_count = 3, written = [1::nat], decay_log = []\<rparr> = Some 0
   \<and> (optim default_args = ''sgd'' \<or> optimizer \<lparr>lr = 1 / 1000,
            optimizer = Some \<lparr>opt_lr = 1 / 1000, opt_weight_decay = 1 / 100\<rparr>,
            best_val_loss = Some 0, patience_count = 3, written = [1::nat], decay_log = []\<rparr> \<noteq> None)
   \<and> \<not> (1 / 2 < (0::real))
   \<and> after_evaluation default_args 2 (1 / 2) \<lparr>lr = 1 / 1000,
            optimizer = Some \<lparr>opt_lr = 1 / 1000, opt_weight_decay = 1 / 100\<rparr>,
            best_val_loss = Some 0, patience_count = 3, written = [1::nat], decay_log = []\<rparr>
      = Inr \<lparr>lr = 1 / 1000,
            optimizer = Some \<lparr>opt_lr = 1 / 1000, opt_weight_decay = 1 / 100\<rparr>,
            best_val_loss = Some (1 / 2), patience_count = 0, written = [1, 2], decay_log = []\<rparr>"
  using zero_best_always_improves[of "\<lparr>lr = 1 / 1000,
            optimizer = Some \<lparr>opt_lr = 1 / 1000, opt_weight_decay = 1 / 100\<rparr>,
            best_val_loss = Some 0, patience_count = 3, written = [1::nat], decay_log = []\<rparr>"
          default_args 2 "1 / 2"]
  by (simp add: cev)

text \<open>
  Claim C9. An optimizer name other than \<^verbatim>\<open>adamw\<close> and \<^verbatim>\<open>sgd\<close> fails the assertion,
  and the run ends with its message before any evaluation is processed. For \<^verbatim>\<open>adamw\<close>
  the optimizer is built with the configured rate and weight decay and its step is the
  update; for \<^verbatim>\<open>sgd\<close> there is no optimizer object and each parameter is moved by
  minus the current rate times its gradient.
\<close>

theorem optimizer_policy:
  "(optim a \<noteq> ''adamw'' \<and> optim a \<noteq> ''sgd'' \<longrightarrow>
      setup_optimizer a = Inl (AssertionError ''Specified optimizer not supported'')
      \<and> training a obs = Inl (AssertionError ''Specified optimizer not supported''))
   \<and> (optim a = ''adamw'' \<longrightarrow>
        setup_optimizer a = Inr (Some \<lparr>opt_lr = args_lr a, opt_weight_decay = weight_decay a\<rparr>)
        \<and> (optimizer s = Some opt \<longrightarrow>
             apply_update a adamw_step s params grads = Inr (adamw_step opt params grads)))
   \<and> (optim a = ''sgd'' \<longrightarrow>
        setup_optimizer a = Inr None
        \<and> apply_update a adamw_step s params grads = Inr (sgd_update (lr s) params grads)
        \<and> sgd_update (lr s) params grads = map2 (\<lambda>p g. p - lr s * g) params grads)"
  by (simp add: setup_optimizer_def training_def init_controller_def bindE_def apply_update_def
      sgd_update_def)

text \<open>
  One run for each of the three cases.
\<close>

theorem optimizer_policy_witness:
  "optim (default_args\<lparr>optim := ''adam''\<rparr>) \<noteq> ''adamw''
   \<and> optim (default_args\<lparr>optim := ''adam''\<rparr>) \<noteq> ''sgd''
   \<and> training (default_args\<lparr>optim := ''adam''\<rparr>) [(1::nat, 1)]
        = Inl (AssertionError ''Specified optimizer not supported'')
   \<and> optim default_args = ''adamw''
   \<and> setup_optimizer default_args = Inr (Some \<lparr>opt_lr = 1 / 1000, opt_weight_decay = 1 / 100\<rparr>)
   \<and> optim (default_args\<lparr>optim := ''sgd''\<rparr>) = ''sgd''
   \<and> setup_optimizer (default_args\<lparr>optim := ''sgd''\<rparr>) = Inr None
   \<and> apply_update (default_args\<lparr>optim := ''sgd''\<rparr>) (\<lambda>opt params grads. params)
        \<lparr>lr = 1 / 2, optimizer = None, best_val_loss = None, patience_count = 0,
         written = [] :: nat list, decay_log = []\<rparr> [1, 2] [4, 6]
        = Inr [- 1, - 1]"
proof -
  have a: "optim (default_args\<lparr>optim := ''adam''\<rparr>) \<noteq> ''adamw''
           \<and> optim (default_args\<lparr>optim := ''adam''\<rparr>) \<noteq> ''sgd''" by simp
  have b: "optim default_args = ''adamw''" by (simp add: default_args_def)
  have c: "optim (default_args\<lparr>optim := ''sgd''\<rparr>) = ''sgd''" by simp
  note p1 = optimizer_policy[where a = "default_args\<lparr>optim := ''adam''\<rparr>"
      and obs = "[(1::nat, 1)]"]
  note p2 = optimizer_policy[where a = default_args and obs = "[] :: (nat \<times> real) list"]
  note p3 = optimizer_policy[where a = "default_args\<lparr>optim := ''sgd''\<rparr>"
      and obs = "[] :: (nat \<times> real) list" and adamw_step = "\<lambda>opt params grads. params"
      and s = "\<lparr>lr = 1 / 2, optimizer = None, best_val_loss = None, patience_count = 0,
         written = [] :: nat list, decay_log = []\<rparr>" and params = "[1, 2]" and grads = "[4, 6]"]
  from p1 a have r1: "training (default_args\<lparr>optim := ''adam''\<rparr>) [(1::nat, 1)]
        = Inl (AssertionError ''Specified optimizer not supported'')" by blast
  from p2 b have r2: "setup_optimizer default_args
        = Inr (Some \<lparr>opt_lr = args_lr default_args, opt_weight_decay = weight_decay default_args\<rparr>)"
    by blast
  from p3 c have r3: "setup_optimizer (default_args\<lparr>optim := ''sgd''\<rparr>) = Inr None"
    and r4: "apply_update (default_args\<lparr>optim := ''sgd''\<rparr>) (\<lambda>opt params grads. params)
        \<lparr>lr = 1 / 2, optimizer = None, best_val_loss = None, patience_count = 0,
         written = [] :: nat list, decay_log = []\<rparr> [1, 2] [4, 6]
        = Inr (map2 (\<lambda>p g. p - 1 / 2 * g) [1, 2] [4, 6])"
    by simp_all
  from r2 have r2': "setup_optimizer default_args
        = Inr (Some \<lparr>opt_lr = 1 / 1000, opt_weight_decay = 1 / 100\<rparr>)"
    by (simp add: default_args_def)
  from r4 have r4': "apply_update (default_args\<lparr>optim := ''sgd''\<rparr>) (\<lambda>opt params grads. params)
        \<lparr>lr = 1 / 2, optimizer = None, best_val_loss = None, patience_count = 0,
         written = [] :: nat list, decay_log = []\<rparr> [1, 2] [4, 6] = Inr [- 1, - 1]"
    by simp
  from a b c r1 r2' r3 r4' show ?thesis by blast
qed

subsection \<open>Evaluation\<close>

lemma evaluate_loop_stateless:
  assumes "stateless a"
    and "\<forall>i \<in> set starts. \<exists>data targets.
           get_batch a pad_id src i ntokens (startswith (model a) ''FeedForward'') = Inr (data, targets)
           \<and> size0 data = w i
           \<and> criterion (forward nt data) targets = Inr (l i)"
  shows "evaluate_loop a pad_id ntokens nt src starts (tot, h)
           = Inr (tot + sum_list (map (\<lambda>i. real_of_int (w i) * l i) starts), h)"
  using assms(2)
proof (induction starts arbitrary: tot)
  case Nil
  then show ?case by simp
next
  case (Cons i starts)
  from Cons.prems obtain data targets where
    g: "get_batch a pad_id src i ntokens (startswith (model a) ''FeedForward'') = Inr (data, targets)"
    and w: "size0 data = w i"
    and c: "criterion (forward nt data) targets = Inr (l i)"
    by auto
  have step: "evaluate_window a pad_id ntokens nt src i (tot, h)
                = Inr (tot + real_of_int (w i) * l i, h)"
    using assms(1) g w c by (simp add: evaluate_window_def bindL_def raised_def)
  have "evaluate_loop a pad_id ntokens nt src starts (tot + real_of_int (w i) * l i, h)
          = Inr (tot + real_of_int (w i) * l i
                  + sum_list (map (\<lambda>i. real_of_int (w i) * l i) starts), h)"
    using Cons.prems by (intro Cons.IH) simp
  with step show ?case by (simp add: bindL_def add.assoc)
qed

lemma range_elems:
  assumes "py_range 0 n s = Inr starts" and "0 < s" and "i \<in> set starts"
  shows "0 \<le> i \<and> i < n"
proof -
  from assms obtain k where k: "i = int k * s" "k < nat ((n + s - 1) div s)"
    by (auto simp: py_range_def range_len_def split: if_splits)
  have "int k + 1 \<le> (n + s - 1) div s" using k(2) by simp
  then have "(int k + 1) * s \<le> ((n + s - 1) div s) * s"
    using assms(2) by (simp add: mult_right_mono)
  also have "\<dots> \<le> n + s - 1"
    using assms(2) by (metis mult.commute pos_mod_sign add_le_cancel_left
        mult_div_mod_eq add.right_neutral)
  finally have "int k * s < n" by (simp add: algebra_simps)
  moreover have "0 \<le> int k * s" using assms(2) by simp
  ultimately show ?thesis using k(1) by simp
qed

lemma window_lengths_upto:
  assumes "0 < s" and "j \<le> nat ((n + s - 1) div s)"
  shows "sum_list (map (\<lambda>k. min s (n - int k * s)) [0 ..< j]) = min (int j * s) (max n 0)"
  using assms(2)
proof (induction j)
  case 0
  then show ?case by simp
next
  case (Suc j)
  have "int j + 1 \<le> (n + s - 1) div s" using Suc.prems by simp
  then have "(int j + 1) * s \<le> ((n + s - 1) div s) * s"
    using assms(1) by (simp add: mult_right_mono)
  also have "\<dots> \<le> n + s - 1"
    using assms(1) by (metis mult.commute pos_mod_sign add_le_cancel_left
        mult_div_mod_eq add.right_neutral)
  finally have lt: "int j * s < n" by (simp add: algebra_simps)
  have nn: "0 \<le> int j * s" using assms(1) by simp
  have ih: "sum_list (map (\<lambda>k. min s (n - int k * s)) [0 ..< j]) = min (int j * s) (max n 0)"
    using Suc by simp
  have "int (Suc j) * s = int j * s + s" by (simp add: algebra_simps)
  with ih lt nn show ?case by (simp add: min_def max_def)
qed

lemma window_lengths_total:
  assumes "py_range 0 n s = Inr starts" and "0 < s" and "0 \<le> n"
  shows "sum_list (map (\<lambda>i. min s (n - i)) starts) = n"
proof -
  define len where "len = nat ((n + s - 1) div s)"
  have st: "starts = map (\<lambda>k. int k * s) [0 ..< len]"
    using assms(1,2) by (auto simp: py_range_def range_len_def len_def)
  have "sum_list (map (\<lambda>i. min s (n - i)) starts)
          = sum_list (map (\<lambda>k. min s (n - int k * s)) [0 ..< len])"
    by (simp add: st o_def)
  also have "\<dots> = min (int len * s) (max n 0)"
    using assms(2) by (intro window_lengths_upto) (simp_all add: len_def)
  also have "\<dots> = n"
  proof -
    have "0 \<le> (n + s - 1) div s" using assms(2,3) by (simp add: pos_imp_zdiv_nonneg_iff)
    then have "int len * s = ((n + s - 1) div s) * s" by (simp add: len_def)
    also have "\<dots> = (n + s - 1) - (n + s - 1) mod s"
      by (simp add: algebra_simps minus_mod_eq_mult_div)
    also have "\<dots> \<ge> n"
      using assms(2) pos_mod_bound[of s "n + s - 1"] by linarith
    finally show ?thesis using assms(3) by simp
  qed
  finally show ?thesis .
qed

lemma py_range_pos:
  assumes "0 < s"
  shows "\<exists>starts. py_range lo hi s = Inr starts"
  using assms by (simp add: py_range_def)

text \<open>
  The sequential path of a stateless model, \<open>l i\<close> being the loss that the criterion returns
  for the window at \<open>i\<close>: window \<open>i\<close> is weighted by its number of target rows
  \<open>min(bptt, R - 1 - i)\<close>, and these weights add up to the \<open>R - 1\<close> rows that the result is
  divided by. The result is the mean over the predicted tokens.
\<close>

lemma evaluate_sequential_mean:
  assumes "model a = ''Transformer''" and "1 \<le> bptt a" and "2 \<le> length (rows src)"
    and crit: "\<And>i data targets.
           get_batch a pad_id src i (ntokens_of a dict_len) False = Inr (data, targets)
           \<Longrightarrow> criterion (forward nt data) targets = Inr (l i)"
  shows "\<exists>starts. py_range 0 (size0 src - 1) (bptt a) = Inr starts
           \<and> evaluate a pad_id dict_len nt src
               = Inr (sum_list (map (\<lambda>i. real_of_int (min (bptt a) (size0 src - 1 - i)) * l i) starts)
                      / real_of_int (size0 src - 1))
           \<and> sum_list (map (\<lambda>i. min (bptt a) (size0 src - 1 - i)) starts) = size0 src - 1"
proof -
  have s: "0 < bptt a" using assms(2) by simp
  have b0: "0 \<le> bptt a" using assms(2) by simp
  obtain starts where st: "py_range 0 (size0 src - 1) (bptt a) = Inr starts"
    using py_range_pos[OF s] by blast
  have sl: "stateless a" using assms(1) by (simp add: stateless_def)
  have ff: "startswith (model a) ''FeedForward'' = False"
    using assms(1) by (simp add: startswith_def)
  have n0: "0 \<le> size0 src - 1" using assms(3) unfolding size0_def by linarith
  have n1: "size0 src - 1 \<noteq> 0" using assms(3) by (simp add: size0_def)
  have win: "\<forall>i \<in> set starts. \<exists>data targets.
           get_batch a pad_id src i (ntokens_of a dict_len) (startswith (model a) ''FeedForward'')
             = Inr (data, targets)
           \<and> size0 data = min (bptt a) (size0 src - 1 - i)
           \<and> criterion (forward nt data) targets = Inr (l i)"
  proof
    fix i assume "i \<in> set starts"
    from range_elems[OF st s this] have i: "0 \<le> i" "i < size0 src - 1" by simp_all
    define L where "L = nat (min (bptt a) (size0 src - 1 - i))"
    note w = sequential_window[OF i b0 L_def]
    have "int L = min (bptt a) (size0 src - 1 - i)" using i b0 by (simp add: L_def)
    moreover have "size0 \<lparr>ncols = ncols src, rows = take L (drop (nat i) (rows src))\<rparr> = int L"
      using w(2) by (simp add: size0_def)
    ultimately show "\<exists>data targets.
           get_batch a pad_id src i (ntokens_of a dict_len) (startswith (model a) ''FeedForward'')
             = Inr (data, targets)
           \<and> size0 data = min (bptt a) (size0 src - 1 - i)
           \<and> criterion (forward nt data) targets = Inr (l i)"
      unfolding ff using w(1) crit[OF w(1)] by simp
  qed
  have loop: "evaluate_loop a pad_id (ntokens_of a dict_len) nt src starts (0, None)
                = Inr (0 + sum_list (map (\<lambda>i. real_of_int (min (bptt a) (size0 src - 1 - i)) * l i) starts),
                       None)"
    by (rule evaluate_loop_stateless[OF sl win])
  have ev: "evaluate a pad_id dict_len nt src
               = Inr (sum_list (map (\<lambda>i. real_of_int (min (bptt a) (size0 src - 1 - i)) * l i) starts)
                      / real_of_int (size0 src - 1))"
    using st sl loop n1 by (simp add: evaluate_def Let_def bindL_def raised_def py_truediv_def)
  from st ev window_lengths_total[OF st s n0] show ?thesis by blast
qed

text \<open>
  The pad-start path: window \<open>i\<close> is weighted by the rows of its data,
  \<open>norder + min(bptt, R - i) - 1\<close>, of which only \<open>min(bptt, R - i)\<close> are predicted.
\<close>

lemma evaluate_padded_weights:
  assumes "startswith (model a) ''FeedForward''" and "1 \<le> bptt a" and "0 \<le> norder a"
    and "2 \<le> length (rows src)"
    and crit: "\<And>i data targets.
           get_batch a pad_id src i (ntokens_of a dict_len) True = Inr (data, targets)
           \<Longrightarrow> criterion (forward nt data) targets = Inr (l i)"
  shows "\<exists>starts. py_range 0 (size0 src - 1) (bptt a) = Inr starts
           \<and> evaluate a pad_id dict_len nt src
               = Inr (sum_list (map (\<lambda>i. real_of_int (norder a + min (bptt a) (size0 src - i) - 1) * l i)
                                 starts)
                      / real_of_int (size0 src - 1))"
proof -
  have s: "0 < bptt a" using assms(2) by simp
  obtain starts where st: "py_range 0 (size0 src - 1) (bptt a) = Inr starts"
    using py_range_pos[OF s] by blast
  have sl: "stateless a" using assms(1) by (simp add: stateless_def)
  have n1: "size0 src - 1 \<noteq> 0" using assms(4) by (simp add: size0_def)
  have win: "\<forall>i \<in> set starts. \<exists>data targets.
           get_batch a pad_id src i (ntokens_of a dict_len) (startswith (model a) ''FeedForward'')
             = Inr (data, targets)
           \<and> size0 data = norder a + min (bptt a) (size0 src - i) - 1
           \<and> criterion (forward nt data) targets = Inr (l i)"
  proof
    fix i assume "i \<in> set starts"
    from range_elems[OF st s this] have i: "0 \<le> i" "i < size0 src" by simp_all
    define L where "L = nat (min (bptt a) (size0 src - i))"
    note w = padded_window[OF i assms(2,3) L_def refl]
    have "int L = min (bptt a) (size0 src - i)" using i assms(2) by (simp add: L_def)
    moreover have "int (nat (norder a) + (L - 1)) = norder a + int L - 1"
      using w(3) assms(3) by simp
    ultimately show "\<exists>data targets.
           get_batch a pad_id src i (ntokens_of a dict_len) (startswith (model a) ''FeedForward'')
             = Inr (data, targets)
           \<and> size0 data = norder a + min (bptt a) (size0 src - i) - 1
           \<and> criterion (forward nt data) targets = Inr (l i)"
      using assms(1) w(1,2,5) crit[OF w(1)] by (simp add: size0_def)
  qed
  have loop: "evaluate_loop a pad_id (ntokens_of a dict_len) nt src starts (0, None)
                = Inr (0 + sum_list (map (\<lambda>i. real_of_int (norder a + min (bptt a) (size0 src - i) - 1) * l i)
                                       starts),
                       None)"
    by (rule evaluate_loop_stateless[OF sl win])
  have "evaluate a pad_id dict_len nt src
               = Inr (sum_list (map (\<lambda>i. real_of_int (norder a + min (bptt a) (size0 src - i) - 1) * l i)
                                 starts)
                      / real_of_int (size0 src - 1))"
    using st sl loop n1 by (simp add: evaluate_def Let_def bindL_def raised_def py_truediv_def)
  with st show ?thesis by blast
qed

lemmas eev = evaluate_def evaluate_window_def criterion_def bindL_def raised_def stateless_def
  startswith_def py_range_def range_len_def py_truediv_def
  get_batch_def default_args_def size0_def slice_rows_def py_slice_def slice_bound_def
  flatten_def padding_of_def cat0_def bindE_def Let_def ntokens_of_def

text \<open>
  Claim C8 fails on the code for the fixed-context models. The split has four rows and one
  column, \<open>bptt = 2\<close>, and the network gives every target token the log-probability
  \<open>- x\<close>, so that the mean loss per token is \<open>x\<close>. With the default model
  \<^verbatim>\<open>FeedForward\<close> (\<open>norder = 4\<close>) each of the two windows has a data tensor of five rows and
  is weighted by 5, not by its two target rows: the result is \<open>10 x / 3\<close>. The sequential
  path, here \<^verbatim>\<open>Transformer\<close>, weights its windows by 2 and 1 and returns \<open>x\<close>.
\<close>

theorem evaluate_weights_by_data_rows:
  "evaluate (default_args\<lparr>bptt := 2\<rparr>) 0 2
      \<lparr>forward = \<lambda>data. map (\<lambda>k. [- x, - x]) (concat (drop 3 (rows data))),
       forward_hidden = \<lambda>data h. ([], h), init_hidden = \<lambda>n. ()\<rparr>
      \<lparr>ncols = 1, rows = [[0], [1], [0], [1]]\<rparr>
     = Inr (10 * x / 3)
   \<and> evaluate (default_args\<lparr>bptt := 2, model := ''Transformer''\<rparr>) 0 2
      \<lparr>forward = \<lambda>data. map (\<lambda>k. [- x, - x]) (concat (rows data)),
       forward_hidden = \<lambda>data h. ([], h), init_hidden = \<lambda>n. ()\<rparr>
      \<lparr>ncols = 1, rows = [[0], [1], [0], [1]]\<rparr>
     = Inr x"
  by (simp add: eev eval_nat_numeral)

end
